theory Spec2Isabelle
  imports Complex_Main
begin

section \<open>SafeAudioEngine: a shallow embedding of audioEngine.ts\<close>

text \<open>
  JavaScript numbers are modelled as \<^typ>\<open>real\<close>: the arithmetic of the engine is exact
  here, rounding of doubles and of the \<open>Float32Array\<close> sample storage is not part of the
  model. Array indices and sample counts are \<^typ>\<open>nat\<close>, the sequencer's index (which
  starts at \<open>-1\<close>) is an \<^typ>\<open>int\<close>.
\<close>

subsection \<open>Safety constants and helpers\<close>

definition MAX_SAFE_GAIN :: real where "MAX_SAFE_GAIN = 0.45"
definition FADE_IN_SEC :: real where "FADE_IN_SEC = 0.35"
definition FADE_OUT_SEC :: real where "FADE_OUT_SEC = 0.12"
definition MIN_FREQ :: real where "MIN_FREQ = 20"
definition MAX_FREQ :: real where "MAX_FREQ = 20000"

text \<open>\<open>GAIN_SCALAR\<close> is a \<open>Record<string, number>\<close>: a table keyed by strings.\<close>

definition GAIN_SCALAR :: "string \<rightharpoonup> real" where
  "GAIN_SCALAR = map_of
     [(''sine'', 1.0), (''square'', 0.15), (''sawtooth'', 0.2), (''triangle'', 0.5),
      (''white'', 0.15), (''pink'', 0.5), (''brown'', 1.0)]"

definition clampFreq :: "real \<Rightarrow> real" where
  "clampFreq f = max MIN_FREQ (min f MAX_FREQ)"

definition clampGain :: "real \<Rightarrow> real" where
  "clampGain v = max 0 (min v MAX_SAFE_GAIN)"

text \<open>The nullish-coalescing operator \<open>x ?? d\<close> and a defaulted optional argument.\<close>

definition nullish :: "'a option \<Rightarrow> 'a \<Rightarrow> 'a" where
  "nullish x d = (case x of None \<Rightarrow> d | Some v \<Rightarrow> v)"

subsection \<open>Web Audio objects\<close>

text \<open>
  The oscillator types that can be assigned to \<open>osc.type\<close> and the three noise colours,
  with the strings they are in the source (the keys of \<open>GAIN_SCALAR\<close>).
\<close>

datatype OscillatorType = Sine | Square | Sawtooth | Triangle

datatype NoiseColor = White | Pink | Brown

fun wave_key :: "OscillatorType \<Rightarrow> string" where
  "wave_key Sine = ''sine''"
| "wave_key Square = ''square''"
| "wave_key Sawtooth = ''sawtooth''"
| "wave_key Triangle = ''triangle''"

fun color_key :: "NoiseColor \<Rightarrow> string" where
  "color_key White = ''white''"
| "color_key Pink = ''pink''"
| "color_key Brown = ''brown''"

datatype BiquadFilterType = Bandpass | Notch

text \<open>
  An \<open>AudioParam\<close> has its \<open>value\<close> and the automation events scheduled on it, in the
  order of the calls.
\<close>

datatype ParamEvent =
    SetValueAtTime real real
  | SetTargetAtTime real real real
  | ExponentialRampToValueAtTime real real

record AudioParam =
  pvalue :: real
  automation :: "ParamEvent list"

fun event_value :: "ParamEvent \<Rightarrow> real" where
  "event_value (SetValueAtTime v t) = v"
| "event_value (SetTargetAtTime v t tc) = v"
| "event_value (ExponentialRampToValueAtTime v t) = v"

definition mkParam :: "real \<Rightarrow> AudioParam" where
  "mkParam v = \<lparr>pvalue = v, automation = []\<rparr>"

definition setValueAtTime :: "real \<Rightarrow> real \<Rightarrow> AudioParam \<Rightarrow> AudioParam" where
  "setValueAtTime v t p = p\<lparr>automation := automation p @ [SetValueAtTime v t]\<rparr>"

definition setTargetAtTime :: "real \<Rightarrow> real \<Rightarrow> real \<Rightarrow> AudioParam \<Rightarrow> AudioParam" where
  "setTargetAtTime v t tc p = p\<lparr>automation := automation p @ [SetTargetAtTime v t tc]\<rparr>"

definition exponentialRampToValueAtTime :: "real \<Rightarrow> real \<Rightarrow> AudioParam \<Rightarrow> AudioParam" where
  "exponentialRampToValueAtTime v t p =
     p\<lparr>automation := automation p @ [ExponentialRampToValueAtTime v t]\<rparr>"

text \<open>Every value a parameter has been given: its \<open>value\<close> and the value of each event.\<close>

definition programmed :: "AudioParam \<Rightarrow> real list" where
  "programmed p = pvalue p # map event_value (automation p)"

text \<open>The value a parameter was given last.\<close>

definition current_target :: "AudioParam \<Rightarrow> real" where
  "current_target p = last (programmed p)"

datatype SourceState = Unstarted | Started | Stopped

text \<open>
  Nodes are objects: they live in a store and are referred to by address, since the
  engine's \<open>sources\<close> and \<open>nodes\<close> arrays and the sequencer's closure share them. A buffer
  source refers to its \<open>AudioBuffer\<close> by address too.
\<close>

datatype AudioNode =
    OscillatorNode OscillatorType AudioParam SourceState
  | AudioBufferSourceNode "nat option" bool SourceState
  | BiquadFilterNode BiquadFilterType AudioParam AudioParam
  | GainNode AudioParam
  | ChannelMergerNode nat

record AudioBuffer =
  numberOfChannels :: nat
  buf_sampleRate :: nat
  channelData :: "real list"

text \<open>
  The audio context: its sample rate and the instant of the world clock at which it was
  created; \<open>ctx.currentTime\<close> is the time elapsed since.
\<close>

record AudioContext =
  sampleRate :: nat
  createdAt :: real

record Compressor =
  threshold :: real
  knee :: real
  ratio :: real
  attack :: real
  release :: real

text \<open>Connections: from a node's output to a node's input or to a gain parameter.\<close>

datatype NodeRef = Node nat | MasterGainRef | LimiterRef | AnalyserRef | DestinationRef

datatype Port = Input NodeRef nat | GainParamOf NodeRef

text \<open>
  The closure of the coordinated-reset sequencer: the variables \<open>ctx\<close>, \<open>gains\<close> and \<open>cur\<close>
  that \<open>step\<close> captures, and the interval it is scheduled at.
\<close>

record Sequencer =
  sq_ctx :: AudioContext
  sq_gains :: "nat list"
  sq_cur :: int
  sq_tempoMs :: real

datatype js_error = TypeError

text \<open>
  The engine and the part of the world it acts on: the object store, the connections,
  the clock and \<open>Math.random\<close> (a sequence of draws and the number already consumed).
\<close>

record SafeAudioEngine =
  ctx :: "AudioContext option"
  masterGain :: "AudioParam option"
  limiter :: "Compressor option"
  analyser :: "nat option"
  sources :: "nat list"
  nodes :: "nat list"
  noiseCache :: "NoiseColor \<rightharpoonup> nat"
  sequencerTimer :: "Sequencer option"
  riTimeout :: "real option"
  vol :: real
  playing :: bool
  heap :: "nat \<rightharpoonup> AudioNode"
  buffers :: "nat \<rightharpoonup> AudioBuffer"
  next_id :: nat
  edges :: "(NodeRef \<times> Port) list"
  now :: real
  rand :: "nat \<Rightarrow> real"
  rand_pos :: nat
  platform_rate :: nat

definition new_engine :: "(nat \<Rightarrow> real) \<Rightarrow> nat \<Rightarrow> SafeAudioEngine" where
  "new_engine rnd rate =
     \<lparr>ctx = None, masterGain = None, limiter = None, analyser = None,
      sources = [], nodes = [], noiseCache = Map.empty,
      sequencerTimer = None, riTimeout = None, vol = 0.12, playing = False,
      heap = Map.empty, buffers = Map.empty, next_id = 0, edges = [], now = 0,
      rand = rnd, rand_pos = 0, platform_rate = rate\<rparr>"

subsection \<open>Store and connections\<close>

definition currentTime :: "AudioContext \<Rightarrow> SafeAudioEngine \<Rightarrow> real" where
  "currentTime c e = now e - createdAt c"

definition advance :: "real \<Rightarrow> SafeAudioEngine \<Rightarrow> SafeAudioEngine" where
  "advance dt e = e\<lparr>now := now e + dt\<rparr>"

text \<open>The \<open>ctx.create...\<close> calls: a new node at a fresh address.\<close>

definition createNode :: "AudioNode \<Rightarrow> SafeAudioEngine \<Rightarrow> nat \<times> SafeAudioEngine" where
  "createNode n e =
     (next_id e, e\<lparr>heap := (heap e)(next_id e \<mapsto> n), next_id := next_id e + 1\<rparr>)"

text \<open>\<open>a.connect(b)\<close> adds a connection once; \<open>a.disconnect()\<close> removes all outputs of \<open>a\<close>.\<close>

definition add_edge :: "NodeRef \<times> Port \<Rightarrow> (NodeRef \<times> Port) list \<Rightarrow> (NodeRef \<times> Port) list" where
  "add_edge x es = (if x \<in> set es then es else es @ [x])"

definition connect :: "NodeRef \<Rightarrow> Port \<Rightarrow> SafeAudioEngine \<Rightarrow> SafeAudioEngine" where
  "connect a b e = e\<lparr>edges := add_edge (a, b) (edges e)\<rparr>"

definition disconnect :: "NodeRef \<Rightarrow> SafeAudioEngine \<Rightarrow> SafeAudioEngine" where
  "disconnect a e = e\<lparr>edges := filter (\<lambda>(s, d). s \<noteq> a) (edges e)\<rparr>"

text \<open>
  \<open>s.start()\<close> and \<open>s.stop()\<close> on a scheduled source. \<open>stop\<close> on a source that was never
  started throws, and \<open>cleanup\<close> swallows the exception: nothing changes then.
\<close>

fun start_node :: "AudioNode \<Rightarrow> AudioNode" where
  "start_node (OscillatorNode ty f st) = OscillatorNode ty f Started"
| "start_node (AudioBufferSourceNode b l st) = AudioBufferSourceNode b l Started"
| "start_node n = n"

fun stop_node :: "AudioNode \<Rightarrow> AudioNode" where
  "stop_node (OscillatorNode ty f st) =
     OscillatorNode ty f (if st = Unstarted then st else Stopped)"
| "stop_node (AudioBufferSourceNode b l st) =
     AudioBufferSourceNode b l (if st = Unstarted then st else Stopped)"
| "stop_node n = n"

text \<open>A method call on the node at an address; an address that holds no node is left alone.\<close>

definition map_at :: "nat \<Rightarrow> (AudioNode \<Rightarrow> AudioNode) \<Rightarrow> (nat \<rightharpoonup> AudioNode) \<Rightarrow> (nat \<rightharpoonup> AudioNode)" where
  "map_at a f h = (case h a of None \<Rightarrow> h | Some n \<Rightarrow> h(a \<mapsto> f n))"

definition update_node :: "nat \<Rightarrow> (AudioNode \<Rightarrow> AudioNode) \<Rightarrow> SafeAudioEngine \<Rightarrow> SafeAudioEngine" where
  "update_node a f e = e\<lparr>heap := map_at a f (heap e)\<rparr>"

definition start :: "nat \<Rightarrow> SafeAudioEngine \<Rightarrow> SafeAudioEngine" where
  "start a e = update_node a start_node e"

subsection \<open>Audio context and master chain\<close>

text \<open>
  \<open>getCtx\<close>: the context is created on first use. Resuming a suspended context changes
  nothing that is modelled.
\<close>

definition getCtx :: "SafeAudioEngine \<Rightarrow> AudioContext \<times> SafeAudioEngine" where
  "getCtx e =
     (case ctx e of
        None \<Rightarrow> (let c = \<lparr>sampleRate = platform_rate e, createdAt = now e\<rparr>
                 in (c, e\<lparr>ctx := Some c\<rparr>))
      | Some c \<Rightarrow> (c, e))"

definition master :: "SafeAudioEngine \<Rightarrow> SafeAudioEngine" where
  "master e0 =
     (let (c, e) = getCtx e0;
          e = (if masterGain e = None then e\<lparr>masterGain := Some (mkParam 0)\<rparr> else e);
          e = (if limiter e = None
               then e\<lparr>limiter := Some \<lparr>threshold = - 3, knee = 6, ratio = 20,
                                         attack = 0.002, release = 0.05\<rparr>\<rparr>
               else e);
          e = (if analyser e = None then e\<lparr>analyser := Some 2048\<rparr> else e);
          e = disconnect MasterGainRef e;
          e = disconnect LimiterRef e;
          e = disconnect AnalyserRef e;
          e = connect MasterGainRef (Input LimiterRef 0) e;
          e = connect LimiterRef (Input AnalyserRef 0) e;
          e = connect AnalyserRef (Input DestinationRef 0) e
      in e)"

subsection \<open>Volume and fades\<close>

definition setVolume :: "real \<Rightarrow> SafeAudioEngine \<Rightarrow> SafeAudioEngine" where
  "setVolume v e0 =
     (let e = e0\<lparr>vol := clampGain v\<rparr>
      in case (masterGain e, ctx e) of
           (Some g, Some c) \<Rightarrow>
             (if playing e
              then e\<lparr>masterGain := Some (setTargetAtTime (vol e) (currentTime c e) 0.05 g)\<rparr>
              else e)
         | _ \<Rightarrow> e)"

definition fadeIn :: "real \<Rightarrow> SafeAudioEngine \<Rightarrow> SafeAudioEngine" where
  "fadeIn target e =
     (case (masterGain e, ctx e) of
        (Some g, Some c) \<Rightarrow>
          (let safe = clampGain target;
               g = setValueAtTime 0.0001 (currentTime c e) g;
               g = exponentialRampToValueAtTime (max safe 0.0001)
                     (currentTime c e + FADE_IN_SEC) g
           in e\<lparr>masterGain := Some g\<rparr>)
      | _ \<Rightarrow> e)"

subsection \<open>Cleanup and stop\<close>

primrec cleanup_sources :: "nat list \<Rightarrow> SafeAudioEngine \<Rightarrow> SafeAudioEngine" where
  "cleanup_sources [] e = e"
| "cleanup_sources (s # ss) e =
     cleanup_sources ss (disconnect (Node s) (update_node s stop_node e))"

primrec cleanup_nodes :: "nat list \<Rightarrow> SafeAudioEngine \<Rightarrow> SafeAudioEngine" where
  "cleanup_nodes [] e = e"
| "cleanup_nodes (n # ns) e = cleanup_nodes ns (disconnect (Node n) e)"

definition cleanup :: "SafeAudioEngine \<Rightarrow> SafeAudioEngine" where
  "cleanup e0 =
     (let e = cleanup_sources (sources e0) e0;
          e = cleanup_nodes (nodes e) e;
          e = e\<lparr>sources := [], nodes := []\<rparr>;
          e = (if sequencerTimer e \<noteq> None then e\<lparr>sequencerTimer := None\<rparr> else e);
          e = (if riTimeout e \<noteq> None then e\<lparr>riTimeout := None\<rparr> else e)
      in e\<lparr>playing := False\<rparr>)"

text \<open>
  \<open>stop()\<close> returns a promise: one that is already resolved, or one that the callback of a
  timer resolves; the timer's delay is in milliseconds, and its callback is \<open>stop_timeout\<close>.
\<close>

datatype Promise = Resolved | ResolvesAfter real

definition stop :: "SafeAudioEngine \<Rightarrow> SafeAudioEngine \<times> Promise" where
  "stop e =
     (if \<not> playing e \<and> length (sources e) = 0 then (cleanup e, Resolved)
      else
        (let e1 = (case (masterGain e, ctx e) of
                     (Some g, Some c) \<Rightarrow>
                       e\<lparr>masterGain := Some (setTargetAtTime 0 (currentTime c e) 0.025 g)\<rparr>
                   | _ \<Rightarrow> e)
         in (e1, ResolvesAfter (FADE_OUT_SEC * 1000 + 60))))"

definition stop_timeout :: "SafeAudioEngine \<Rightarrow> SafeAudioEngine" where
  "stop_timeout e = cleanup e"

text \<open>
  The instant, in seconds, at which a promise made at instant \<open>t\<close> resolves, when a timer
  fires after exactly its delay.
\<close>

fun resolves_at :: "real \<Rightarrow> Promise \<Rightarrow> real" where
  "resolves_at t Resolved = t"
| "resolves_at t (ResolvesAfter ms) = t + ms / 1000"

text \<open>
  \<open>await this.stop()\<close>, with no other call of the engine in between: the clock moves on by
  the timer's delay and the callback runs.
\<close>

definition await_stop :: "SafeAudioEngine \<Rightarrow> SafeAudioEngine" where
  "await_stop e =
     (case stop e of
        (e1, Resolved) \<Rightarrow> e1
      | (e1, ResolvesAfter ms) \<Rightarrow> stop_timeout (advance (ms / 1000) e1))"

subsection \<open>Noise buffers\<close>

text \<open>
  The three generator loops of \<open>noiseBuf\<close>. Each runs over the sample index \<open>i\<close>, takes one
  draw of \<open>Math.random\<close> per sample (\<open>rnd\<close> is the sequence of draws, \<open>pos\<close> the number
  consumed so far) and writes the channel data \<open>d\<close>; it returns the data and the new \<open>pos\<close>.
\<close>

function white_loop :: "(nat \<Rightarrow> real) \<Rightarrow> nat \<Rightarrow> nat \<Rightarrow> nat \<Rightarrow> real list \<Rightarrow> real list \<times> nat" where
  "white_loop rnd N i pos d =
     (if i < N then white_loop rnd N (i + 1) (pos + 1) (d[i := rnd pos * 2 - 1])
      else (d, pos))"
  by pat_completeness auto
termination
  by (relation "measure (\<lambda>(rnd, N, i, pos, d). N - i)") auto

function pink_loop ::
  "(nat \<Rightarrow> real) \<Rightarrow> nat \<Rightarrow> nat \<Rightarrow> nat \<Rightarrow> real \<Rightarrow> real \<Rightarrow> real \<Rightarrow> real \<Rightarrow> real \<Rightarrow> real \<Rightarrow> real
     \<Rightarrow> real list \<Rightarrow> real list \<times> nat" where
  "pink_loop rnd N i pos b0 b1 b2 b3 b4 b5 b6 d =
     (if i < N then
        (let w = rnd pos * 2 - 1;
             b0 = 0.99886 * b0 + w * 0.0555179;
             b1 = 0.99332 * b1 + w * 0.0750759;
             b2 = 0.96900 * b2 + w * 0.1538520;
             b3 = 0.86650 * b3 + w * 0.3104856;
             b4 = 0.55000 * b4 + w * 0.5329522;
             b5 = - 0.7616 * b5 - w * 0.0168980;
             d = d[i := (b0 + b1 + b2 + b3 + b4 + b5 + b6 + w * 0.5362) * 0.11];
             b6 = w * 0.115926
         in pink_loop rnd N (i + 1) (pos + 1) b0 b1 b2 b3 b4 b5 b6 d)
      else (d, pos))"
  by pat_completeness auto
termination
  by (relation "measure (\<lambda>(rnd, N, i, pos, b0, b1, b2, b3, b4, b5, b6, d). N - i)") auto

function brown_loop ::
  "(nat \<Rightarrow> real) \<Rightarrow> nat \<Rightarrow> nat \<Rightarrow> nat \<Rightarrow> real \<Rightarrow> real list \<Rightarrow> real list \<times> nat" where
  "brown_loop rnd N i pos last' d =
     (if i < N then
        (let w = rnd pos * 2 - 1;
             d = d[i := (last' + 0.02 * w) / 1.02];
             last' = d ! i;
             d = d[i := d ! i * 3.5]
         in brown_loop rnd N (i + 1) (pos + 1) last' d)
      else (d, pos))"
  by pat_completeness auto
termination
  by (relation "measure (\<lambda>(rnd, N, i, pos, last', d). N - i)") auto

declare white_loop.simps [simp del] pink_loop.simps [simp del] brown_loop.simps [simp del]

text \<open>
  \<open>noiseBuf\<close> returns the address of the buffer. \<open>ctx.createBuffer(1, N, rate)\<close> gives
  a buffer of \<open>N\<close> zero samples, which the loop of the colour fills.
\<close>

definition noiseBuf :: "AudioContext \<Rightarrow> NoiseColor \<Rightarrow> SafeAudioEngine \<Rightarrow> nat \<times> SafeAudioEngine" where
  "noiseBuf c type e =
     (case noiseCache e type of
        Some b \<Rightarrow> (b, e)
      | None \<Rightarrow>
          (let N = 2 * sampleRate c;
               d = replicate N 0;
               (d, pos) =
                  (if type = White then white_loop (rand e) N 0 (rand_pos e) d
                   else if type = Pink then pink_loop (rand e) N 0 (rand_pos e) 0 0 0 0 0 0 0 d
                   else brown_loop (rand e) N 0 (rand_pos e) 0 d);
               buf = next_id e;
               e = e\<lparr>buffers := (buffers e)(buf \<mapsto>
                        \<lparr>numberOfChannels = 1, buf_sampleRate = sampleRate c, channelData = d\<rparr>),
                      next_id := buf + 1, rand_pos := pos\<rparr>;
               e = e\<lparr>noiseCache := (noiseCache e)(type \<mapsto> buf)\<rparr>
           in (buf, e)))"

subsection \<open>Wiring\<close>

primrec wire_chain :: "nat \<Rightarrow> nat list \<Rightarrow> SafeAudioEngine \<Rightarrow> nat \<times> SafeAudioEngine" where
  "wire_chain prev [] e = (prev, e)"
| "wire_chain prev (n # ns) e =
     (let e = connect (Node prev) (Input (Node n) 0) e;
          e = e\<lparr>nodes := nodes e @ [n]\<rparr>
      in wire_chain n ns e)"

definition wire :: "nat \<Rightarrow> nat list \<Rightarrow> SafeAudioEngine \<Rightarrow> SafeAudioEngine" where
  "wire source intermediates e0 =
     (let e = master e0;
          (prev, e) = wire_chain source intermediates e
      in connect (Node prev) (Input MasterGainRef 0) e)"

subsection \<open>Playback methods\<close>

text \<open>
  Each method first awaits \<open>stop()\<close>. Creating a node and assigning its attributes is one
  step of the model. Optional arguments are options, \<open>None\<close> for an argument left out.
\<close>

definition playTone :: "real \<Rightarrow> OscillatorType option \<Rightarrow> SafeAudioEngine \<Rightarrow> SafeAudioEngine" where
  "playTone freq wave0 e0 =
     (let wave = nullish wave0 Sine;
          e = await_stop e0;
          (c, e) = getCtx e;
          e = master e;
          (osc, e) = createNode (OscillatorNode wave (mkParam (clampFreq freq)) Unstarted) e;
          e = wire osc [] e;
          e = start osc e;
          e = e\<lparr>sources := sources e @ [osc]\<rparr>;
          e = e\<lparr>playing := True\<rparr>
      in fadeIn (vol e * nullish (GAIN_SCALAR (wave_key wave)) 1) e)"

definition playNoise ::
  "NoiseColor \<Rightarrow> real option \<Rightarrow> real option \<Rightarrow> SafeAudioEngine \<Rightarrow> SafeAudioEngine" where
  "playNoise color centerFreq q0 e0 =
     (let q = nullish q0 1.0;
          e = await_stop e0;
          (c, e) = getCtx e;
          e = master e;
          (buf, e) = noiseBuf c color e;
          (src, e) = createNode (AudioBufferSourceNode (Some buf) True Unstarted) e;
          e = (case centerFreq of
                 None \<Rightarrow> wire src [] e
               | Some cf \<Rightarrow>
                   (if cf \<noteq> 0 then
                      (let (bp, e) = createNode
                             (BiquadFilterNode Bandpass (mkParam (clampFreq cf)) (mkParam q)) e
                       in wire src [bp] e)
                    else wire src [] e));
          e = start src e;
          e = e\<lparr>sources := sources e @ [src]\<rparr>;
          e = e\<lparr>playing := True\<rparr>
      in fadeIn (vol e * nullish (GAIN_SCALAR (color_key color)) 0.3) e)"

definition playNotchedNoise ::
  "real \<Rightarrow> real option \<Rightarrow> NoiseColor option \<Rightarrow> SafeAudioEngine \<Rightarrow> SafeAudioEngine" where
  "playNotchedNoise notchFreq notchQ0 color0 e0 =
     (let notchQ = nullish notchQ0 6;
          color = nullish color0 Pink;
          e = await_stop e0;
          (c, e) = getCtx e;
          e = master e;
          (buf, e) = noiseBuf c color e;
          (src, e) = createNode (AudioBufferSourceNode (Some buf) True Unstarted) e;
          (notch, e) = createNode
             (BiquadFilterNode Notch (mkParam (clampFreq notchFreq)) (mkParam notchQ)) e;
          e = wire src [notch] e;
          e = start src e;
          e = e\<lparr>sources := sources e @ [src]\<rparr>;
          e = e\<lparr>playing := True\<rparr>
      in fadeIn (vol e * nullish (GAIN_SCALAR (color_key color)) 0.3) e)"

definition playAM ::
  "real \<Rightarrow> real option \<Rightarrow> real option \<Rightarrow> SafeAudioEngine \<Rightarrow> SafeAudioEngine" where
  "playAM freq modRate0 modDepth0 e0 =
     (let modRate = nullish modRate0 10;
          modDepth = nullish modDepth0 0.7;
          e = await_stop e0;
          (c, e) = getCtx e;
          e = master e;
          (carrier, e) = createNode (OscillatorNode Sine (mkParam (clampFreq freq)) Unstarted) e;
          (lfo, e) = createNode (OscillatorNode Sine (mkParam modRate) Unstarted) e;
          (lfoGain, e) = createNode (GainNode (mkParam (modDepth * 0.5))) e;
          (out, e) = createNode (GainNode (mkParam (1 - modDepth * 0.5))) e;
          e = connect (Node lfo) (Input (Node lfoGain) 0) e;
          e = connect (Node lfoGain) (GainParamOf (Node out)) e;
          e = connect (Node carrier) (Input (Node out) 0) e;
          e = connect (Node out) (Input MasterGainRef 0) (master e);
          e = start carrier e;
          e = start lfo e;
          e = e\<lparr>sources := sources e @ [carrier, lfo]\<rparr>;
          e = e\<lparr>nodes := nodes e @ [lfoGain, out]\<rparr>;
          e = e\<lparr>playing := True\<rparr>
      in fadeIn (vol e) e)"

definition playBinaural :: "real \<Rightarrow> real option \<Rightarrow> SafeAudioEngine \<Rightarrow> SafeAudioEngine" where
  "playBinaural baseFreq beatFreq0 e0 =
     (let beatFreq = nullish beatFreq0 10;
          e = await_stop e0;
          (c, e) = getCtx e;
          e = master e;
          (merger, e) = createNode (ChannelMergerNode 2) e;
          (left, e) = createNode (OscillatorNode Sine (mkParam (clampFreq baseFreq)) Unstarted) e;
          (right, e) = createNode
             (OscillatorNode Sine (mkParam (clampFreq (baseFreq + beatFreq))) Unstarted) e;
          e = connect (Node left) (Input (Node merger) 0) e;
          e = connect (Node right) (Input (Node merger) 1) e;
          e = connect (Node merger) (Input MasterGainRef 0) (master e);
          e = start left e;
          e = start right e;
          e = e\<lparr>sources := sources e @ [left, right]\<rparr>;
          e = e\<lparr>nodes := nodes e @ [merger]\<rparr>;
          e = e\<lparr>playing := True\<rparr>
      in fadeIn (vol e) e)"

text \<open>
  \<open>playResidualInhibition\<close> keeps the delay of its timer in \<open>riTimeout\<close>; the timer's
  callback is \<open>ri_timeout\<close>, which stops the engine (and then calls the caller's \<open>onFinish\<close>,
  which is not part of the engine).
\<close>

definition playResidualInhibition :: "real \<Rightarrow> real option \<Rightarrow> SafeAudioEngine \<Rightarrow> SafeAudioEngine" where
  "playResidualInhibition freq durationSec0 e0 =
     (let durationSec = nullish durationSec0 60;
          e = playTone freq (Some Sine) e0
      in e\<lparr>riTimeout := Some (durationSec * 1000)\<rparr>)"

definition ri_timeout :: "SafeAudioEngine \<Rightarrow> SafeAudioEngine" where
  "ri_timeout e = await_stop e"

definition playPhaseCancellation :: "real \<Rightarrow> SafeAudioEngine \<Rightarrow> SafeAudioEngine" where
  "playPhaseCancellation freq e0 =
     (let e = await_stop e0;
          (c, e) = getCtx e;
          e = master e;
          (osc, e) = createNode (OscillatorNode Sine (mkParam (clampFreq freq)) Unstarted) e;
          (invert, e) = createNode (GainNode (mkParam (- 1))) e;
          e = connect (Node osc) (Input (Node invert) 0) e;
          e = connect (Node invert) (Input MasterGainRef 0) (master e);
          e = start osc e;
          e = e\<lparr>sources := sources e @ [osc]\<rparr>;
          e = e\<lparr>nodes := nodes e @ [invert]\<rparr>;
          e = e\<lparr>playing := True\<rparr>
      in fadeIn (vol e) e)"

subsection \<open>Coordinated reset and its sequencer\<close>

definition ratios :: "real list" where
  "ratios = [0.773, 0.867, 1.133, 1.227]"

text \<open>The loop over \<open>ratios\<close> that builds the four tones.\<close>

primrec cr_loop ::
  "real list \<Rightarrow> real \<Rightarrow> nat list \<Rightarrow> nat list \<Rightarrow> SafeAudioEngine
     \<Rightarrow> nat list \<times> nat list \<times> SafeAudioEngine" where
  "cr_loop [] centerFreq oscs gains e = (oscs, gains, e)"
| "cr_loop (r # rs) centerFreq oscs gains e =
     (let (osc, e) = createNode
             (OscillatorNode Sine (mkParam (clampFreq (centerFreq * r))) Unstarted) e;
          (g, e) = createNode (GainNode (mkParam 0)) e;
          e = connect (Node osc) (Input (Node g) 0) e;
          e = connect (Node g) (Input MasterGainRef 0) (master e);
          e = start osc e;
          e = e\<lparr>sources := sources e @ [osc]\<rparr>;
          e = e\<lparr>nodes := nodes e @ [g]\<rparr>
      in cr_loop rs centerFreq (oscs @ [osc]) (gains @ [g]) e)"

text \<open>
  \<open>gains[k].gain.setTargetAtTime(v, t, tc)\<close>. For \<open>k\<close> outside the array \<open>gains[k]\<close> is
  \<open>undefined\<close>, and reading its \<open>gain\<close> throws a \<open>TypeError\<close>.
\<close>

definition gain_setTargetAtTime ::
  "nat list \<Rightarrow> int \<Rightarrow> real \<Rightarrow> real \<Rightarrow> real \<Rightarrow> SafeAudioEngine \<Rightarrow> js_error + SafeAudioEngine" where
  "gain_setTargetAtTime gains k v t tc e =
     (if 0 \<le> k \<and> nat k < length gains then
        (case heap e (gains ! nat k) of
           Some (GainNode g) \<Rightarrow>
             Inr (e\<lparr>heap := (heap e)(gains ! nat k \<mapsto> GainNode (setTargetAtTime v t tc g))\<rparr>)
         | _ \<Rightarrow> Inl TypeError)
      else Inl TypeError)"

text \<open>
  The rejection loop \<open>do { next = Math.floor(Math.random() * 4); } while (next === cur)\<close>.
  It returns the index and the number of draws consumed, or nothing when it runs forever.
\<close>

partial_function (option) draw_next :: "(nat \<Rightarrow> real) \<Rightarrow> nat \<Rightarrow> int \<Rightarrow> (int \<times> nat) option" where
  "draw_next rnd pos cur =
     (let next = \<lfloor>rnd pos * 4\<rfloor>
      in if next = cur then draw_next rnd (pos + 1) cur else Some (next, pos + 1))"

text \<open>
  One run of the closure \<open>step\<close>, on the closure's variables and the engine. A run that
  throws is \<open>Inl\<close>; the state it leaves is not described.
\<close>

definition step ::
  "Sequencer \<Rightarrow> SafeAudioEngine \<Rightarrow> (js_error + Sequencer \<times> SafeAudioEngine) option" where
  "step sq e =
     (if \<not> playing e then Some (Inr (sq, e))
      else
        (case (if sq_cur sq \<ge> 0
               then gain_setTargetAtTime (sq_gains sq) (sq_cur sq) 0
                      (currentTime (sq_ctx sq) e) 0.015 e
               else Inr e) of
           Inl err \<Rightarrow> Some (Inl err)
         | Inr e1 \<Rightarrow>
             (case draw_next (rand e1) (rand_pos e1) (sq_cur sq) of
                None \<Rightarrow> None
              | Some (next, pos) \<Rightarrow>
                  (case gain_setTargetAtTime (sq_gains sq) next 0.5
                          (currentTime (sq_ctx sq) e1 + 0.02) 0.015 (e1\<lparr>rand_pos := pos\<rparr>) of
                     Inl err \<Rightarrow> Some (Inl err)
                   | Inr e2 \<Rightarrow> Some (Inr (sq\<lparr>sq_cur := next\<rparr>, e2))))))"

text \<open>
  The graph of \<open>playCoordinatedReset\<close>, up to the fade-in; it returns the closure that
  \<open>step\<close> starts from.
\<close>

definition cr_graph :: "real \<Rightarrow> real option \<Rightarrow> SafeAudioEngine \<Rightarrow> Sequencer \<times> SafeAudioEngine" where
  "cr_graph centerFreq tempoMs0 e0 =
     (let tempoMs = nullish tempoMs0 250;
          e = await_stop e0;
          (c, e) = getCtx e;
          e = master e;
          (oscs, gains, e) = cr_loop ratios centerFreq [] [] e;
          e = e\<lparr>playing := True\<rparr>;
          e = fadeIn (vol e) e
      in (\<lparr>sq_ctx = c, sq_gains = gains, sq_cur = - 1, sq_tempoMs = tempoMs\<rparr>, e))"

definition playCoordinatedReset ::
  "real \<Rightarrow> real option \<Rightarrow> SafeAudioEngine \<Rightarrow> (js_error + SafeAudioEngine) option" where
  "playCoordinatedReset centerFreq tempoMs0 e0 =
     (let (sq, e) = cr_graph centerFreq tempoMs0 e0
      in case step sq e of
           None \<Rightarrow> None
         | Some (Inl err) \<Rightarrow> Some (Inl err)
         | Some (Inr (sq, e)) \<Rightarrow> Some (Inr (e\<lparr>sequencerTimer := Some sq\<rparr>)))"

text \<open>The interval timer fires: \<open>step\<close> runs once more. A cleared timer does not fire.\<close>

definition sequencer_tick :: "SafeAudioEngine \<Rightarrow> (js_error + SafeAudioEngine) option" where
  "sequencer_tick e =
     (case sequencerTimer e of
        None \<Rightarrow> Some (Inr e)
      | Some sq \<Rightarrow>
          (case step sq e of
             None \<Rightarrow> None
           | Some (Inl err) \<Rightarrow> Some (Inl err)
           | Some (Inr (sq', e')) \<Rightarrow> Some (Inr (e'\<lparr>sequencerTimer := Some sq'\<rparr>))))"

subsection \<open>Live parameter updates and teardown\<close>

fun osc_setFrequency :: "real \<Rightarrow> real \<Rightarrow> AudioNode \<Rightarrow> AudioNode" where
  "osc_setFrequency f t (OscillatorNode ty fr st) = OscillatorNode ty (setValueAtTime f t fr) st"
| "osc_setFrequency f t n = n"

fun filter_setFrequency :: "real \<Rightarrow> real \<Rightarrow> AudioNode \<Rightarrow> AudioNode" where
  "filter_setFrequency f t (BiquadFilterNode ty fr q) = BiquadFilterNode ty (setValueAtTime f t fr) q"
| "filter_setFrequency f t n = n"

definition updateOscFrequency :: "real \<Rightarrow> SafeAudioEngine \<Rightarrow> SafeAudioEngine" where
  "updateOscFrequency freq e =
     (case ctx e of
        None \<Rightarrow> e
      | Some c \<Rightarrow>
          (let f = clampFreq freq
           in fold (\<lambda>s e. update_node s (osc_setFrequency f (currentTime c e)) e) (sources e) e))"

definition updateFilterFrequency :: "real \<Rightarrow> SafeAudioEngine \<Rightarrow> SafeAudioEngine" where
  "updateFilterFrequency freq e =
     (case ctx e of
        None \<Rightarrow> e
      | Some c \<Rightarrow>
          fold (\<lambda>n e. update_node n (filter_setFrequency (clampFreq freq) (currentTime c e)) e)
            (nodes e) e)"

text \<open>
  \<open>destroy\<close> calls \<open>stop()\<close> without awaiting it and sets a timer of 300 ms, whose callback
  is \<open>destroy_timeout\<close>; run to its end, the timer of \<open>stop\<close> fires first.
\<close>

definition destroy_timeout :: "SafeAudioEngine \<Rightarrow> SafeAudioEngine" where
  "destroy_timeout e = e\<lparr>ctx := None, masterGain := None, limiter := None, analyser := None\<rparr>"

definition destroy :: "SafeAudioEngine \<Rightarrow> SafeAudioEngine" where
  "destroy e =
     (case stop e of
        (e1, Resolved) \<Rightarrow> destroy_timeout (advance (300 / 1000) e1)
      | (e1, ResolvesAfter ms) \<Rightarrow>
          destroy_timeout (advance ((300 - ms) / 1000) (stop_timeout (advance (ms / 1000) e1))))"

subsection \<open>The public interface as calls\<close>

datatype Playback =
    Tone real "OscillatorType option"
  | Noise NoiseColor "real option" "real option"
  | NotchedNoise real "real option" "NoiseColor option"
  | CoordinatedReset real "real option"
  | AmplitudeModulation real "real option" "real option"
  | Binaural real "real option"
  | ResidualInhibition real "real option"
  | PhaseCancellation real

fun play :: "Playback \<Rightarrow> SafeAudioEngine \<Rightarrow> (js_error + SafeAudioEngine) option" where
  "play (Tone f w) e = Some (Inr (playTone f w e))"
| "play (Noise c cf q) e = Some (Inr (playNoise c cf q e))"
| "play (NotchedNoise f q c) e = Some (Inr (playNotchedNoise f q c e))"
| "play (CoordinatedReset f t) e = playCoordinatedReset f t e"
| "play (AmplitudeModulation f r d) e = Some (Inr (playAM f r d e))"
| "play (Binaural f b) e = Some (Inr (playBinaural f b e))"
| "play (ResidualInhibition f d) e = Some (Inr (playResidualInhibition f d e))"
| "play (PhaseCancellation f) e = Some (Inr (playPhaseCancellation f e))"

text \<open>
  What can happen to an engine: a call of a public method, run to its end, a timer of
  the engine firing, or time passing.
\<close>

datatype Call =
    Play Playback
  | Stop
  | SetVolume real
  | UpdateOscFrequency real
  | UpdateFilterFrequency real
  | Destroy
  | SequencerTick
  | RiTimeout
  | Wait real

fun exec :: "Call \<Rightarrow> SafeAudioEngine \<Rightarrow> (js_error + SafeAudioEngine) option" where
  "exec (Play m) e = play m e"
| "exec Stop e = Some (Inr (await_stop e))"
| "exec (SetVolume v) e = Some (Inr (setVolume v e))"
| "exec (UpdateOscFrequency f) e = Some (Inr (updateOscFrequency f e))"
| "exec (UpdateFilterFrequency f) e = Some (Inr (updateFilterFrequency f e))"
| "exec Destroy e = Some (Inr (destroy e))"
| "exec SequencerTick e = sequencer_tick e"
| "exec RiTimeout e = Some (Inr (if riTimeout e = None then e else ri_timeout e))"
| "exec (Wait dt) e = Some (Inr (advance dt e))"

fun run :: "Call list \<Rightarrow> SafeAudioEngine \<Rightarrow> (js_error + SafeAudioEngine) option" where
  "run [] e = Some (Inr e)"
| "run (c # cs) e =
     (case exec c e of
        None \<Rightarrow> None
      | Some (Inl err) \<Rightarrow> Some (Inl err)
      | Some (Inr e') \<Rightarrow> run cs e')"

section \<open>Vocabulary of the proofs\<close>

subsection \<open>The operations as record updates\<close>

text \<open>
  The values that the operations give to the fields they assign, named so that each
  operation can be written as one update of the engine record.
\<close>

definition ctx_or_new :: "AudioContext option \<Rightarrow> nat \<Rightarrow> real \<Rightarrow> AudioContext" where
  "ctx_or_new cx rate t =
     (case cx of None \<Rightarrow> \<lparr>sampleRate = rate, createdAt = t\<rparr> | Some c \<Rightarrow> c)"

definition master_edges :: "(NodeRef \<times> Port) list \<Rightarrow> (NodeRef \<times> Port) list" where
  "master_edges es =
     add_edge (AnalyserRef, Input DestinationRef 0)
       (add_edge (LimiterRef, Input AnalyserRef 0)
          (add_edge (MasterGainRef, Input LimiterRef 0)
             (filter (\<lambda>(s, d). s \<noteq> AnalyserRef)
                (filter (\<lambda>(s, d). s \<noteq> LimiterRef)
                   (filter (\<lambda>(s, d). s \<noteq> MasterGainRef) es)))))"

text \<open>The master gain after the writes of \<open>stop\<close>, \<open>fadeIn\<close> and \<open>setVolume\<close>, at clock \<open>t\<close>.\<close>

definition gain_fade_out ::
  "AudioParam option \<Rightarrow> AudioContext option \<Rightarrow> real \<Rightarrow> AudioParam option" where
  "gain_fade_out mg cx t =
     (case (mg, cx) of
        (Some g, Some c) \<Rightarrow> Some (setTargetAtTime 0 (t - createdAt c) 0.025 g)
      | _ \<Rightarrow> mg)"

definition gain_fade_in ::
  "real \<Rightarrow> AudioParam option \<Rightarrow> AudioContext option \<Rightarrow> real \<Rightarrow> AudioParam option" where
  "gain_fade_in target mg cx t =
     (case (mg, cx) of
        (Some g, Some c) \<Rightarrow>
          Some (exponentialRampToValueAtTime (max (clampGain target) 0.0001)
                  (t - createdAt c + FADE_IN_SEC) (setValueAtTime 0.0001 (t - createdAt c) g))
      | _ \<Rightarrow> mg)"

definition gain_volume ::
  "real \<Rightarrow> AudioParam option \<Rightarrow> AudioContext option \<Rightarrow> bool \<Rightarrow> real \<Rightarrow> AudioParam option" where
  "gain_volume v mg cx pl t =
     (case (mg, cx) of
        (Some g, Some c) \<Rightarrow>
          (if pl then Some (setTargetAtTime (clampGain v) (t - createdAt c) 0.05 g) else mg)
      | _ \<Rightarrow> mg)"

text \<open>The master gain and the clock after an awaited \<open>stop\<close>.\<close>

definition stop_gain ::
  "bool \<Rightarrow> nat list \<Rightarrow> AudioParam option \<Rightarrow> AudioContext option \<Rightarrow> real \<Rightarrow> AudioParam option" where
  "stop_gain pl srcs mg cx t = (if \<not> pl \<and> srcs = [] then mg else gain_fade_out mg cx t)"

definition stop_now :: "bool \<Rightarrow> nat list \<Rightarrow> real \<Rightarrow> real" where
  "stop_now pl srcs t =
     (if \<not> pl \<and> srcs = [] then t else t + (FADE_OUT_SEC * 1000 + 60) / 1000)"

text \<open>
  What \<open>noiseBuf\<close> computes from the cache entry of the colour: the samples and draws of
  the generator, the address it returns, and the next free address.
\<close>

definition noise_gen :: "(nat \<Rightarrow> real) \<Rightarrow> nat \<Rightarrow> nat \<Rightarrow> NoiseColor \<Rightarrow> real list \<times> nat" where
  "noise_gen rnd pos rate type =
     (if type = White then white_loop rnd (2 * rate) 0 pos (replicate (2 * rate) 0)
      else if type = Pink
        then pink_loop rnd (2 * rate) 0 pos 0 0 0 0 0 0 0 (replicate (2 * rate) 0)
      else brown_loop rnd (2 * rate) 0 pos 0 (replicate (2 * rate) 0))"

definition noise_addr :: "nat option \<Rightarrow> nat \<Rightarrow> nat" where
  "noise_addr entry nid = (case entry of Some b \<Rightarrow> b | None \<Rightarrow> nid)"

definition noise_next :: "nat option \<Rightarrow> nat \<Rightarrow> nat" where
  "noise_next entry nid = (case entry of Some b \<Rightarrow> nid | None \<Rightarrow> Suc nid)"

definition noise_buffers ::
  "nat option \<Rightarrow> nat \<Rightarrow> (nat \<rightharpoonup> AudioBuffer) \<Rightarrow> (nat \<Rightarrow> real) \<Rightarrow> nat \<Rightarrow> nat \<Rightarrow> NoiseColor
     \<Rightarrow> (nat \<rightharpoonup> AudioBuffer)" where
  "noise_buffers entry nid bufs rnd pos rate type =
     (case entry of
        Some b \<Rightarrow> bufs
      | None \<Rightarrow> bufs(nid \<mapsto> \<lparr>numberOfChannels = 1, buf_sampleRate = rate,
                              channelData = fst (noise_gen rnd pos rate type)\<rparr>))"

definition noise_pos :: "nat option \<Rightarrow> (nat \<Rightarrow> real) \<Rightarrow> nat \<Rightarrow> nat \<Rightarrow> NoiseColor \<Rightarrow> nat" where
  "noise_pos entry rnd pos rate type =
     (case entry of Some b \<Rightarrow> pos | None \<Rightarrow> snd (noise_gen rnd pos rate type))"

definition cleanup_edges :: "nat list \<Rightarrow> (NodeRef \<times> Port) list \<Rightarrow> (NodeRef \<times> Port) list" where
  "cleanup_edges ns es = fold (\<lambda>n. filter (\<lambda>(s, d). s \<noteq> Node n)) ns es"

definition cleanup_heap :: "nat list \<Rightarrow> (nat \<rightharpoonup> AudioNode) \<Rightarrow> (nat \<rightharpoonup> AudioNode)" where
  "cleanup_heap ss h = fold (\<lambda>s. map_at s stop_node) ss h"

subsection \<open>Safety of the master gain\<close>

definition safe_param :: "AudioParam \<Rightarrow> bool" where
  "safe_param g = list_all (\<lambda>v. 0 \<le> v \<and> v \<le> MAX_SAFE_GAIN) (programmed g)"

definition safe_opt :: "AudioParam option \<Rightarrow> bool" where
  "safe_opt mg = (case mg of None \<Rightarrow> True | Some g \<Rightarrow> safe_param g)"

text \<open>
  Every value the master gain has been given, by assignment or as the target of a ramp,
  is in \<open>[0, MAX_SAFE_GAIN]\<close>.
\<close>

definition master_gain_safe :: "SafeAudioEngine \<Rightarrow> bool" where
  "master_gain_safe e = safe_opt (masterGain e)"

text \<open>
  The values given to the gains of the tones that the sequencer's closure holds, and to
  the gain node at one address.
\<close>

definition gain_values_at :: "SafeAudioEngine \<Rightarrow> nat \<Rightarrow> real list" where
  "gain_values_at e a = (case heap e a of Some (GainNode g) \<Rightarrow> programmed g | _ \<Rightarrow> [])"

definition tone_values :: "SafeAudioEngine \<Rightarrow> real list" where
  "tone_values e =
     (case sequencerTimer e of
        None \<Rightarrow> []
      | Some sq \<Rightarrow> concat (map (gain_values_at e) (sq_gains sq)))"

text \<open>
  A node is left as it is, or it is a gain node whose gain is given values of \<open>V\<close>.
\<close>

definition gain_step :: "real set \<Rightarrow> AudioNode option \<Rightarrow> AudioNode option \<Rightarrow> bool" where
  "gain_step V n n' =
     (n' = n \<or>
      (\<exists>g g'. n = Some (GainNode g) \<and> n' = Some (GainNode g') \<and> pvalue g' = pvalue g \<and>
         set (programmed g') \<subseteq> set (programmed g) \<union> V))"

text \<open>The engine a call returns, when it returns one.\<close>

definition returned :: "(js_error + SafeAudioEngine) option \<Rightarrow> SafeAudioEngine option" where
  "returned r = (case r of Some (Inr e) \<Rightarrow> Some e | _ \<Rightarrow> None)"

subsection \<open>Frequencies of a graph\<close>

definition freq_in_range :: "real \<Rightarrow> bool" where
  "freq_in_range f = (MIN_FREQ \<le> f \<and> f \<le> MAX_FREQ)"

text \<open>The frequency values programmed into a node: of an oscillator and of a filter.\<close>

fun node_freqs :: "AudioNode \<Rightarrow> real list" where
  "node_freqs (OscillatorNode ty fr st) = programmed fr"
| "node_freqs (BiquadFilterNode ty fr q) = programmed fr"
| "node_freqs n = []"

definition freqs_at :: "SafeAudioEngine \<Rightarrow> nat \<Rightarrow> real list" where
  "freqs_at e a = (case heap e a of None \<Rightarrow> [] | Some n \<Rightarrow> node_freqs n)"

text \<open>The graph of a session is what \<open>sources\<close> and \<open>nodes\<close> hold.\<close>

definition graph_freqs :: "SafeAudioEngine \<Rightarrow> real list" where
  "graph_freqs e = concat (map (freqs_at e) (sources e @ nodes e))"

text \<open>For each live source, the frequency it was last given, when it is an oscillator.\<close>

definition source_targets :: "SafeAudioEngine \<Rightarrow> real option list" where
  "source_targets e =
     map (\<lambda>a. case heap e a of
                 Some (OscillatorNode ty fr st) \<Rightarrow> Some (current_target fr)
               | _ \<Rightarrow> None) (sources e)"

subsection \<open>Runs of the sequencer\<close>

text \<open>The index the sequencer holds, \<open>- 1\<close> when there is none.\<close>

definition selected :: "SafeAudioEngine \<Rightarrow> int" where
  "selected e = (case sequencerTimer e of None \<Rightarrow> - 1 | Some sq \<Rightarrow> sq_cur sq)"

text \<open>The interval timer fires \<open>n\<close> times; the indices selected, tick by tick.\<close>

fun interval_ticks :: "nat \<Rightarrow> SafeAudioEngine \<Rightarrow> (js_error + int list \<times> SafeAudioEngine) option" where
  "interval_ticks 0 e = Some (Inr ([], e))"
| "interval_ticks (Suc n) e =
     (case sequencer_tick e of
        None \<Rightarrow> None
      | Some (Inl err) \<Rightarrow> Some (Inl err)
      | Some (Inr e1) \<Rightarrow>
          (case interval_ticks n e1 of
             None \<Rightarrow> None
           | Some (Inl err) \<Rightarrow> Some (Inl err)
           | Some (Inr (ks, e2)) \<Rightarrow> Some (Inr (selected e1 # ks, e2))))"

text \<open>
  The draws of \<open>Math.random\<close> lie in \<open>[0, 1)\<close>, and the indices drawn from them are not
  the same one for ever.
\<close>

definition draws_in_range :: "(nat \<Rightarrow> real) \<Rightarrow> bool" where
  "draws_in_range rnd = (\<forall>k. 0 \<le> rnd k \<and> rnd k < 1)"

definition never_stuck :: "(nat \<Rightarrow> real) \<Rightarrow> bool" where
  "never_stuck rnd = (\<forall>k c. \<exists>j\<ge>k. \<lfloor>rnd j * 4\<rfloor> \<noteq> c)"

text \<open>
  A coordinated-reset session is running: the engine plays, and the closure of the
  interval timer holds four gain nodes and an index that is \<open>- 1\<close> or one of them.
\<close>

definition cr_running :: "SafeAudioEngine \<Rightarrow> bool" where
  "cr_running e =
     (playing e \<and>
      (case sequencerTimer e of
         None \<Rightarrow> False
       | Some sq \<Rightarrow>
           length (sq_gains sq) = 4 \<and> - 1 \<le> sq_cur sq \<and> sq_cur sq < 4 \<and>
           list_all (\<lambda>a. case heap e a of Some (GainNode g) \<Rightarrow> True | _ \<Rightarrow> False)
             (sq_gains sq)))"

subsection \<open>The noise recurrences, sample by sample\<close>

text \<open>The white sample of iteration \<open>i\<close>, for draws that start at \<open>pos\<close>.\<close>

definition white_sample :: "(nat \<Rightarrow> real) \<Rightarrow> nat \<Rightarrow> nat \<Rightarrow> real" where
  "white_sample rnd pos i = rnd (pos + i) * 2 - 1"

text \<open>
  Pink noise as the specification words it: six states, each with a decay and a weight,
  updated from the white sample before the sum; the carry of the previous sample.
\<close>

definition pink_decay :: "real list" where
  "pink_decay = [0.99886, 0.99332, 0.96900, 0.86650, 0.55000, - 0.7616]"

definition pink_weight :: "real list" where
  "pink_weight = [0.0555179, 0.0750759, 0.1538520, 0.3104856, 0.5329522, - 0.0168980]"

fun pink_state :: "(nat \<Rightarrow> real) \<Rightarrow> nat \<Rightarrow> nat \<Rightarrow> real" where
  "pink_state w k 0 = pink_decay ! k * 0 + w 0 * pink_weight ! k"
| "pink_state w k (Suc i) = pink_decay ! k * pink_state w k i + w (Suc i) * pink_weight ! k"

definition pink_carry :: "(nat \<Rightarrow> real) \<Rightarrow> nat \<Rightarrow> real" where
  "pink_carry w i = (if i = 0 then 0 else w (i - 1) * 0.115926)"

definition pink_sample :: "(nat \<Rightarrow> real) \<Rightarrow> nat \<Rightarrow> real" where
  "pink_sample w i =
     (pink_state w 0 i + pink_state w 1 i + pink_state w 2 i + pink_state w 3 i
        + pink_state w 4 i + pink_state w 5 i + pink_carry w i + w i * 0.5362) * 0.11"

text \<open>
  Brown noise. \<open>brown_walk\<close> is the leaky random walk before the scaling by 3.5,
  \<open>brown_fed_back\<close> the recurrence in which the scaled output of one step is the
  \<open>previousOutput\<close> of the next.
\<close>

fun brown_walk :: "(nat \<Rightarrow> real) \<Rightarrow> nat \<Rightarrow> real" where
  "brown_walk w 0 = (0 + 0.02 * w 0) / 1.02"
| "brown_walk w (Suc i) = (brown_walk w i + 0.02 * w (Suc i)) / 1.02"

fun brown_fed_back :: "(nat \<Rightarrow> real) \<Rightarrow> nat \<Rightarrow> real" where
  "brown_fed_back w 0 = ((0 + 0.02 * w 0) / 1.02) * 3.5"
| "brown_fed_back w (Suc i) = ((brown_fed_back w i + 0.02 * w (Suc i)) / 1.02) * 3.5"

text \<open>
  The same recurrences from any state of the loop: the walk from \<open>last = l\<close>, a pink
  state from \<open>b\<close> with its decay and weight, the carry from \<open>b6\<close>, and the pink sample
  mixed from them.
\<close>

fun walk_from :: "real \<Rightarrow> (nat \<Rightarrow> real) \<Rightarrow> nat \<Rightarrow> real" where
  "walk_from l w 0 = (l + 0.02 * w 0) / 1.02"
| "walk_from l w (Suc i) = (walk_from l w i + 0.02 * w (Suc i)) / 1.02"

fun state_from :: "real \<Rightarrow> real \<Rightarrow> real \<Rightarrow> (nat \<Rightarrow> real) \<Rightarrow> nat \<Rightarrow> real" where
  "state_from b dc wt w 0 = dc * b + w 0 * wt"
| "state_from b dc wt w (Suc i) = dc * state_from b dc wt w i + w (Suc i) * wt"

definition carry_from :: "real \<Rightarrow> (nat \<Rightarrow> real) \<Rightarrow> nat \<Rightarrow> real" where
  "carry_from b6 w i = (if i = 0 then b6 else w (i - 1) * 0.115926)"

definition pink_mix ::
  "real \<Rightarrow> real \<Rightarrow> real \<Rightarrow> real \<Rightarrow> real \<Rightarrow> real \<Rightarrow> real \<Rightarrow> (nat \<Rightarrow> real) \<Rightarrow> nat \<Rightarrow> real" where
  "pink_mix b0 b1 b2 b3 b4 b5 b6 w i =
     (state_from b0 0.99886 0.0555179 w i + state_from b1 0.99332 0.0750759 w i
        + state_from b2 0.96900 0.1538520 w i + state_from b3 0.86650 0.3104856 w i
        + state_from b4 0.55000 0.5329522 w i + state_from b5 (- 0.7616) (- 0.0168980) w i
        + carry_from b6 w i + w i * 0.5362) * 0.11"

text \<open>The samples of the buffer at an address.\<close>

definition samples :: "SafeAudioEngine \<Rightarrow> nat \<Rightarrow> real list" where
  "samples e b = (case buffers e b of None \<Rightarrow> [] | Some buf \<Rightarrow> channelData buf)"

subsection \<open>The noise cache\<close>

text \<open>Every cached address is one that was handed out, and a buffer is stored there.\<close>

definition cache_wf :: "SafeAudioEngine \<Rightarrow> bool" where
  "cache_wf e = (\<forall>c b. noiseCache e c = Some b \<longrightarrow> b < next_id e \<and> buffers e b \<noteq> None)"

text \<open>From \<open>e\<close> to \<open>e'\<close> every cache entry is kept, and so is the buffer it refers to.\<close>

definition cache_kept :: "SafeAudioEngine \<Rightarrow> SafeAudioEngine \<Rightarrow> bool" where
  "cache_kept e e' =
     (\<forall>c b. noiseCache e c = Some b \<longrightarrow> noiseCache e' c = Some b \<and> buffers e' b = buffers e b)"

text \<open>From \<open>e\<close> to \<open>e'\<close> the cache and the buffers are the same, and no address is reused.\<close>

definition cache_frame :: "SafeAudioEngine \<Rightarrow> SafeAudioEngine \<Rightarrow> bool" where
  "cache_frame e e' =
     (noiseCache e' = noiseCache e \<and> buffers e' = buffers e \<and> next_id e \<le> next_id e')"

text \<open>Where there are live sources there is an audio context.\<close>

definition ctx_live :: "SafeAudioEngine \<Rightarrow> bool" where
  "ctx_live e = (sources e = [] \<or> ctx e \<noteq> None)"

subsection \<open>Concrete inputs\<close>

definition demo_rand :: "nat \<Rightarrow> real" where
  "demo_rand n = (if even n then 0.1 else 0.6)"

definition demo_engine :: SafeAudioEngine where
  "demo_engine = new_engine demo_rand 44100"

definition demo_ctx :: AudioContext where
  "demo_ctx = \<lparr>sampleRate = 44100, createdAt = 0\<rparr>"

section \<open>Properties of the operations\<close>

subsection \<open>Clamps\<close>

lemma clampGain_bounds: "0 \<le> clampGain v \<and> clampGain v \<le> MAX_SAFE_GAIN"
  by (simp add: clampGain_def MAX_SAFE_GAIN_def)

lemma clampFreq_bounds: "MIN_FREQ \<le> clampFreq f \<and> clampFreq f \<le> MAX_FREQ"
  by (simp add: clampFreq_def MIN_FREQ_def MAX_FREQ_def)

lemma freq_in_range_clampFreq: "freq_in_range (clampFreq f)"
  by (simp add: freq_in_range_def clampFreq_bounds)

lemma nullish_simps: "nullish None d = d" "nullish (Some v) d = v"
  by (simp_all add: nullish_def)

subsection \<open>Each operation as one record update\<close>

lemma map_at_apply: "map_at a f h x = (if x = a then map_option f (h a) else h x)"
  by (auto simp: map_at_def split: option.splits)

lemma ctx_or_new_Some: "ctx_or_new (Some c) rate t = c"
  by (simp add: ctx_or_new_def)

lemma getCtx_nf:
  "getCtx e = (ctx_or_new (ctx e) (platform_rate e) (now e),
               e\<lparr>ctx := Some (ctx_or_new (ctx e) (platform_rate e) (now e))\<rparr>)"
  by (simp add: getCtx_def ctx_or_new_def Let_def split: option.splits)

lemma master_nf:
  "master e = e\<lparr>ctx := Some (ctx_or_new (ctx e) (platform_rate e) (now e)),
       masterGain := Some (nullish (masterGain e) (mkParam 0)),
       limiter := Some (nullish (limiter e) \<lparr>threshold = - 3, knee = 6, ratio = 20,
                                         attack = 0.002, release = 0.05\<rparr>),
       analyser := Some (nullish (analyser e) 2048),
       edges := master_edges (edges e)\<rparr>"
  by (cases "masterGain e"; cases "limiter e"; cases "analyser e")
     (simp_all add: master_def getCtx_nf connect_def disconnect_def master_edges_def nullish_def)

lemma setVolume_nf:
  "setVolume v e =
     e\<lparr>vol := clampGain v,
       masterGain := gain_volume v (masterGain e) (ctx e) (playing e) (now e)\<rparr>"
  by (simp add: setVolume_def gain_volume_def currentTime_def Let_def split: option.splits)

lemma fadeIn_nf:
  "fadeIn target e = e\<lparr>masterGain := gain_fade_in target (masterGain e) (ctx e) (now e)\<rparr>"
  by (simp add: fadeIn_def gain_fade_in_def currentTime_def Let_def split: option.splits)

lemma gain_fade_in_Some:
  "gain_fade_in target (Some g) (Some c) t =
     Some (exponentialRampToValueAtTime (max (clampGain target) 0.0001)
             (t - createdAt c + FADE_IN_SEC) (setValueAtTime 0.0001 (t - createdAt c) g))"
  by (simp add: gain_fade_in_def)

lemma cleanup_sources_nf:
  "cleanup_sources ss e =
     e\<lparr>heap := cleanup_heap ss (heap e), edges := cleanup_edges ss (edges e)\<rparr>"
  by (induction ss arbitrary: e)
     (simp_all add: cleanup_heap_def cleanup_edges_def update_node_def disconnect_def)

lemma cleanup_nodes_nf: "cleanup_nodes ns e = e\<lparr>edges := cleanup_edges ns (edges e)\<rparr>"
  by (induction ns arbitrary: e) (simp_all add: cleanup_edges_def disconnect_def)

lemma cleanup_nf:
  "cleanup e = e\<lparr>heap := cleanup_heap (sources e) (heap e),
       edges := cleanup_edges (nodes e) (cleanup_edges (sources e) (edges e)),
       sources := [], nodes := [], sequencerTimer := None, riTimeout := None,
       playing := False\<rparr>"
  by (cases "sequencerTimer e"; cases "riTimeout e")
     (simp_all add: cleanup_def cleanup_sources_nf cleanup_nodes_nf)

lemma stop_cases:
  "stop e = (if \<not> playing e \<and> sources e = [] then (cleanup e, Resolved)
             else (e\<lparr>masterGain := gain_fade_out (masterGain e) (ctx e) (now e)\<rparr>,
                   ResolvesAfter (FADE_OUT_SEC * 1000 + 60)))"
  by (auto simp: stop_def gain_fade_out_def currentTime_def split: option.splits)

lemma await_stop_nf:
  "await_stop e =
     e\<lparr>masterGain := stop_gain (playing e) (sources e) (masterGain e) (ctx e) (now e),
       now := stop_now (playing e) (sources e) (now e),
       heap := cleanup_heap (sources e) (heap e),
       edges := cleanup_edges (nodes e) (cleanup_edges (sources e) (edges e)),
       sources := [], nodes := [], sequencerTimer := None, riTimeout := None,
       playing := False\<rparr>"
  by (simp add: await_stop_def stop_cases stop_timeout_def cleanup_nf advance_def
      stop_gain_def stop_now_def)

lemma createNode_nf:
  "createNode n e =
     (next_id e, e\<lparr>heap := (heap e)(next_id e \<mapsto> n), next_id := Suc (next_id e)\<rparr>)"
  by (simp add: createNode_def)

lemma wire_chain_nf:
  "wire_chain prev ns e =
     (last (prev # ns),
      e\<lparr>edges := fold (\<lambda>(a, b). add_edge (Node a, Input (Node b) 0))
                    (zip (prev # ns) ns) (edges e),
        nodes := nodes e @ ns\<rparr>)"
  by (induction ns arbitrary: prev e) (simp_all add: connect_def)

lemma noiseBuf_nf:
  "noiseBuf c type e =
     (noise_addr (noiseCache e type) (next_id e),
      e\<lparr>buffers := noise_buffers (noiseCache e type) (next_id e) (buffers e) (rand e)
                     (rand_pos e) (sampleRate c) type,
        next_id := noise_next (noiseCache e type) (next_id e),
        rand_pos := noise_pos (noiseCache e type) (rand e) (rand_pos e) (sampleRate c) type,
        noiseCache := (noiseCache e)(type \<mapsto> noise_addr (noiseCache e type) (next_id e))\<rparr>)"
proof (cases "noiseCache e type")
  case None
  then show ?thesis
    by (simp add: noiseBuf_def noise_addr_def noise_buffers_def noise_next_def noise_pos_def
        noise_gen_def Let_def split: prod.splits)
next
  case (Some b)
  then have "(noiseCache e)(type \<mapsto> b) = noiseCache e"
    by (simp add: fun_upd_idem_iff)
  with Some show ?thesis
    by (simp add: noiseBuf_def noise_addr_def noise_buffers_def noise_next_def noise_pos_def)
qed

lemmas nf = getCtx_nf master_nf await_stop_nf fadeIn_nf setVolume_nf noiseBuf_nf
  createNode_nf wire_chain_nf connect_def disconnect_def update_node_def start_def wire_def
  nullish_simps ctx_or_new_Some

subsection \<open>Values written to the master gain\<close>

lemma safe_param_mkParam0: "safe_param (mkParam 0)"
  by (simp add: safe_param_def programmed_def mkParam_def MAX_SAFE_GAIN_def)

lemma safe_param_setTargetAtTime:
  "safe_param (setTargetAtTime v t tc g) = (safe_param g \<and> 0 \<le> v \<and> v \<le> MAX_SAFE_GAIN)"
  by (auto simp: safe_param_def programmed_def setTargetAtTime_def)

lemma safe_param_setValueAtTime:
  "safe_param (setValueAtTime v t g) = (safe_param g \<and> 0 \<le> v \<and> v \<le> MAX_SAFE_GAIN)"
  by (auto simp: safe_param_def programmed_def setValueAtTime_def)

lemma safe_param_exponentialRamp:
  "safe_param (exponentialRampToValueAtTime v t g) =
     (safe_param g \<and> 0 \<le> v \<and> v \<le> MAX_SAFE_GAIN)"
  by (auto simp: safe_param_def programmed_def exponentialRampToValueAtTime_def)

lemma fade_target_bounds:
  "0 \<le> max (clampGain target) 0.0001 \<and> max (clampGain target) 0.0001 \<le> MAX_SAFE_GAIN"
  by (simp add: clampGain_def MAX_SAFE_GAIN_def max_def min_def)

lemma fade_floor_bounds: "(0::real) \<le> 0.0001 \<and> 0.0001 \<le> MAX_SAFE_GAIN"
  by (simp add: MAX_SAFE_GAIN_def)

lemma safe_opt_simps:
  "safe_opt None"
  "safe_opt (Some g) = safe_param g"
  by (simp_all add: safe_opt_def)

lemma safe_opt_nullish: "safe_param (nullish mg (mkParam 0)) = safe_opt mg"
  by (cases mg) (simp_all add: safe_opt_def nullish_def safe_param_mkParam0)

lemma safe_opt_gain_fade_out: "safe_opt (gain_fade_out mg cx t) = safe_opt mg"
  by (cases mg; cases cx)
     (simp_all add: gain_fade_out_def safe_opt_def safe_param_setTargetAtTime MAX_SAFE_GAIN_def)

lemma safe_opt_stop_gain: "safe_opt (stop_gain pl srcs mg cx t) = safe_opt mg"
  by (simp add: stop_gain_def safe_opt_gain_fade_out)

lemma safe_opt_gain_fade_in: "safe_opt (gain_fade_in target mg cx t) = safe_opt mg"
  using fade_target_bounds [of target] fade_floor_bounds
  by (cases mg; cases cx)
     (simp_all add: gain_fade_in_def safe_opt_def safe_param_setValueAtTime
        safe_param_exponentialRamp)

lemma safe_opt_gain_volume: "safe_opt (gain_volume v mg cx pl t) = safe_opt mg"
  using clampGain_bounds [of v]
  by (cases mg; cases cx)
     (simp_all add: gain_volume_def safe_opt_def safe_param_setTargetAtTime)

lemmas safe_simps = master_gain_safe_def safe_opt_simps safe_opt_nullish safe_opt_stop_gain
  safe_opt_gain_fade_in safe_opt_gain_volume safe_opt_gain_fade_out

lemma safe_new_engine: "master_gain_safe (new_engine rnd rate)"
  by (simp add: master_gain_safe_def new_engine_def safe_opt_def)

lemma safe_await_stop: "master_gain_safe (await_stop e) = master_gain_safe e"
  by (simp add: await_stop_nf safe_simps)

lemma safe_setVolume: "master_gain_safe (setVolume v e) = master_gain_safe e"
  by (simp add: setVolume_nf safe_simps)

lemma safe_playTone: "master_gain_safe (playTone f w e) = master_gain_safe e"
  by (simp add: playTone_def Let_def nf safe_simps)

lemma safe_playNoise: "master_gain_safe (playNoise c cf q e) = master_gain_safe e"
  by (cases cf) (simp_all add: playNoise_def Let_def nf safe_simps)

lemma safe_playNotchedNoise: "master_gain_safe (playNotchedNoise f q c e) = master_gain_safe e"
  by (simp add: playNotchedNoise_def Let_def nf safe_simps)

lemma safe_playAM: "master_gain_safe (playAM f r d e) = master_gain_safe e"
  by (simp add: playAM_def Let_def nf safe_simps)

lemma safe_playBinaural: "master_gain_safe (playBinaural f b e) = master_gain_safe e"
  by (simp add: playBinaural_def Let_def nf safe_simps)

lemma safe_playResidualInhibition:
  "master_gain_safe (playResidualInhibition f d e) = master_gain_safe e"
  using safe_playTone [of f "Some Sine" e]
  by (simp add: playResidualInhibition_def Let_def master_gain_safe_def)

lemma safe_playPhaseCancellation:
  "master_gain_safe (playPhaseCancellation f e) = master_gain_safe e"
  by (simp add: playPhaseCancellation_def Let_def nf safe_simps)

subsection \<open>Fields of the engine after the playback methods\<close>

lemma demo_engine_fields:
  "\<not> playing demo_engine" "sources demo_engine = []" "masterGain demo_engine = None"
  "ctx demo_engine = None" "vol demo_engine = 0.12" "next_id demo_engine = 0"
  "rand demo_engine = demo_rand" "rand_pos demo_engine = 0" "nodes demo_engine = []"
  "noiseCache demo_engine = Map.empty" "sequencerTimer demo_engine = None"
  by (simp_all add: demo_engine_def new_engine_def)

lemma playTone_playing: "playing (playTone f w e)"
  by (simp add: playTone_def Let_def nf)

lemma playTone_masterGain:
  "masterGain (playTone f w e) =
     gain_fade_in (vol e * nullish (GAIN_SCALAR (wave_key (nullish w Sine))) 1)
       (Some (nullish (stop_gain (playing e) (sources e) (masterGain e) (ctx e) (now e))
                (mkParam 0)))
       (Some (ctx_or_new (ctx e) (platform_rate e) (stop_now (playing e) (sources e) (now e))))
       (stop_now (playing e) (sources e) (now e))"
  by (simp add: playTone_def Let_def nf)

lemma playTone_ctx:
  "ctx (playTone f w e) =
     Some (ctx_or_new (ctx e) (platform_rate e) (stop_now (playing e) (sources e) (now e)))"
  by (simp add: playTone_def Let_def nf)

subsection \<open>The sequencer and the coordinated-reset graph\<close>

lemma gain_setTargetAtTime_Inr:
  "gain_setTargetAtTime gs k v t tc e = Inr e' \<longleftrightarrow>
     (0 \<le> k \<and> nat k < length gs \<and>
      (\<exists>g. heap e (gs ! nat k) = Some (GainNode g) \<and>
           e' = e\<lparr>heap := (heap e)(gs ! nat k \<mapsto> GainNode (setTargetAtTime v t tc g))\<rparr>))"
  by (auto simp: gain_setTargetAtTime_def split: option.splits AudioNode.splits)

lemma draw_next_now:
  "\<lfloor>rnd pos * 4\<rfloor> \<noteq> cur \<Longrightarrow> draw_next rnd pos cur = Some (\<lfloor>rnd pos * 4\<rfloor>, pos + 1)"
  by (subst draw_next.simps) (simp add: Let_def)

lemma draw_next_skip:
  "\<lfloor>rnd pos * 4\<rfloor> = cur \<Longrightarrow> draw_next rnd pos cur = draw_next rnd (pos + 1) cur"
  by (subst draw_next.simps) (simp add: Let_def)

lemma draw_next_fresh:
  assumes "draw_next rnd pos cur = Some y"
  shows "fst y \<noteq> cur \<and> pos < snd y \<and> fst y = \<lfloor>rnd (snd y - 1) * 4\<rfloor>"
proof (rule draw_next.raw_induct
    [where P = "\<lambda>rnd pos cur y. fst y \<noteq> cur \<and> pos < snd y \<and> fst y = \<lfloor>rnd (snd y - 1) * 4\<rfloor>",
      OF _ assms])
  fix f :: "(nat \<Rightarrow> real) \<Rightarrow> nat \<Rightarrow> int \<Rightarrow> (int \<times> nat) option"
  fix rnd pos cur y
  assume IH: "\<And>rnd pos cur y. f rnd pos cur = Some y \<Longrightarrow>
                fst y \<noteq> cur \<and> pos < snd y \<and> fst y = \<lfloor>rnd (snd y - 1) * 4\<rfloor>"
    and eq: "(let next = \<lfloor>rnd pos * 4\<rfloor>
              in if next = cur then f rnd (pos + 1) cur else Some (next, pos + 1)) = Some y"
  show "fst y \<noteq> cur \<and> pos < snd y \<and> fst y = \<lfloor>rnd (snd y - 1) * 4\<rfloor>"
  proof (cases "\<lfloor>rnd pos * 4\<rfloor> = cur")
    case True
    with eq have "f rnd (pos + 1) cur = Some y" by (simp add: Let_def)
    from IH [OF this] show ?thesis by auto
  next
    case False
    with eq show ?thesis by (auto simp: Let_def)
  qed
qed

lemma draw_next_terminates:
  "\<lfloor>rnd (pos + k) * 4\<rfloor> \<noteq> cur \<Longrightarrow> \<exists>y. draw_next rnd pos cur = Some y"
proof (induction k arbitrary: pos)
  case 0
  then show ?case by (simp add: draw_next_now)
next
  case (Suc k)
  show ?case
  proof (cases "\<lfloor>rnd pos * 4\<rfloor> = cur")
    case True
    from Suc.prems have "\<lfloor>rnd ((pos + 1) + k) * 4\<rfloor> \<noteq> cur" by simp
    from Suc.IH [OF this] True show ?thesis by (simp add: draw_next_skip)
  next
    case False
    then show ?thesis by (simp add: draw_next_now)
  qed
qed

lemma step_not_playing: "\<not> playing e \<Longrightarrow> step sq e = Some (Inr (sq, e))"
  by (simp add: step_def)

lemma step_playing:
  assumes "playing e" and "step sq e = Some (Inr (sq', e'))"
  shows "\<exists>next pos' e1.
     (if sq_cur sq \<ge> 0
      then gain_setTargetAtTime (sq_gains sq) (sq_cur sq) 0 (currentTime (sq_ctx sq) e) 0.015 e
      else Inr e) = Inr e1 \<and>
     draw_next (rand e1) (rand_pos e1) (sq_cur sq) = Some (next, pos') \<and>
     gain_setTargetAtTime (sq_gains sq) next 0.5 (currentTime (sq_ctx sq) e1 + 0.02) 0.015
        (e1\<lparr>rand_pos := pos'\<rparr>) = Inr e' \<and>
     sq' = sq\<lparr>sq_cur := next\<rparr>"
  using assms unfolding step_def
  by (auto split: sum.splits option.splits prod.splits if_splits)

lemma step_fields:
  assumes "step sq e = Some (Inr (sq', e'))"
  shows "e' = e\<lparr>heap := heap e', rand_pos := rand_pos e'\<rparr> \<and> sq_gains sq' = sq_gains sq
         \<and> sq_ctx sq' = sq_ctx sq \<and> sq_tempoMs sq' = sq_tempoMs sq"
proof (cases "playing e")
  case False
  with assms show ?thesis by (simp add: step_not_playing)
next
  case True
  from step_playing [OF True assms] obtain "next" pos' e1 where
    a: "(if sq_cur sq \<ge> 0
         then gain_setTargetAtTime (sq_gains sq) (sq_cur sq) 0 (currentTime (sq_ctx sq) e) 0.015 e
         else Inr e) = Inr e1"
    and c: "gain_setTargetAtTime (sq_gains sq) next 0.5 (currentTime (sq_ctx sq) e1 + 0.02) 0.015
        (e1\<lparr>rand_pos := pos'\<rparr>) = Inr e'"
    and d: "sq' = sq\<lparr>sq_cur := next\<rparr>" by blast
  have "\<exists>h. e1 = e\<lparr>heap := h\<rparr>"
  proof (cases "sq_cur sq \<ge> 0")
    case True
    with a show ?thesis by (auto simp: gain_setTargetAtTime_Inr)
  next
    case False
    with a have "e1 = e\<lparr>heap := heap e\<rparr>" by simp
    then show ?thesis by (rule exI [of _ "heap e"])
  qed
  then obtain h1 where e1: "e1 = e\<lparr>heap := h1\<rparr>" ..
  from c obtain h2 where "e' = e1\<lparr>rand_pos := pos', heap := h2\<rparr>"
    by (auto simp: gain_setTargetAtTime_Inr)
  with e1 have "e' = e\<lparr>heap := h2, rand_pos := pos'\<rparr>" by simp
  then have "e' = e\<lparr>heap := heap e', rand_pos := rand_pos e'\<rparr>" by simp
  with d show ?thesis by simp
qed

lemma cr_graph_sq:
  "fst (cr_graph cf t e) =
     \<lparr>sq_ctx = ctx_or_new (ctx e) (platform_rate e) (stop_now (playing e) (sources e) (now e)),
      sq_gains = [Suc (next_id e), Suc (Suc (Suc (next_id e))),
                  Suc (Suc (Suc (Suc (Suc (next_id e))))),
                  Suc (Suc (Suc (Suc (Suc (Suc (Suc (next_id e)))))))],
      sq_cur = - 1, sq_tempoMs = nullish t 250\<rparr>"
  by (simp add: cr_graph_def ratios_def Let_def nf)

lemma cr_graph_misc:
  "playing (snd (cr_graph cf t e))"
  "rand (snd (cr_graph cf t e)) = rand e"
  "rand_pos (snd (cr_graph cf t e)) = rand_pos e"
  "sources (snd (cr_graph cf t e)) =
     [next_id e, Suc (Suc (next_id e)), Suc (Suc (Suc (Suc (next_id e)))),
      Suc (Suc (Suc (Suc (Suc (Suc (next_id e))))))]"
  "nodes (snd (cr_graph cf t e)) =
     [Suc (next_id e), Suc (Suc (Suc (next_id e))), Suc (Suc (Suc (Suc (Suc (next_id e))))),
      Suc (Suc (Suc (Suc (Suc (Suc (Suc (next_id e)))))))]"
  by (simp_all add: cr_graph_def ratios_def Let_def nf)

lemma cr_graph_heap:
  "heap (snd (cr_graph cf t e)) (next_id e) = Some (OscillatorNode Sine (mkParam (clampFreq (cf * 0.773))) Started)"
  "heap (snd (cr_graph cf t e)) (Suc (next_id e)) = Some (GainNode (mkParam 0))"
  "heap (snd (cr_graph cf t e)) (Suc (Suc (next_id e))) = Some (OscillatorNode Sine (mkParam (clampFreq (cf * 0.867))) Started)"
  "heap (snd (cr_graph cf t e)) (Suc (Suc (Suc (next_id e)))) = Some (GainNode (mkParam 0))"
  "heap (snd (cr_graph cf t e)) (Suc (Suc (Suc (Suc (next_id e))))) = Some (OscillatorNode Sine (mkParam (clampFreq (cf * 1.133))) Started)"
  "heap (snd (cr_graph cf t e)) (Suc (Suc (Suc (Suc (Suc (next_id e)))))) = Some (GainNode (mkParam 0))"
  "heap (snd (cr_graph cf t e)) (Suc (Suc (Suc (Suc (Suc (Suc (next_id e))))))) = Some (OscillatorNode Sine (mkParam (clampFreq (cf * 1.227))) Started)"
  "heap (snd (cr_graph cf t e)) (Suc (Suc (Suc (Suc (Suc (Suc (Suc (next_id e)))))))) = Some (GainNode (mkParam 0))"
  by (simp_all add: cr_graph_def ratios_def Let_def nf map_at_apply)

lemma safe_cr_graph: "master_gain_safe (snd (cr_graph cf t e)) = master_gain_safe e"
  by (simp add: cr_graph_def ratios_def Let_def nf safe_simps)


lemma cr_graph_gain_nodes:
  "i < 4 \<Longrightarrow>
     heap (snd (cr_graph cf t e)) (sq_gains (fst (cr_graph cf t e)) ! i) =
       Some (GainNode (mkParam 0))"
  by (auto simp: cr_graph_sq cr_graph_heap less_Suc_eq numeral_eq_Suc)

lemma floor_draw_range:
  "0 \<le> (r::real) \<Longrightarrow> r < 1 \<Longrightarrow> 0 \<le> \<lfloor>r * 4\<rfloor> \<and> \<lfloor>r * 4\<rfloor> < 4"
  by (simp add: floor_less_iff)

lemma playCoordinatedReset_eq:
  assumes "0 \<le> rand e (rand_pos e)" and "rand e (rand_pos e) < 1"
  shows "playCoordinatedReset cf t e =
     Some (Inr ((snd (cr_graph cf t e))
       \<lparr>heap := (heap (snd (cr_graph cf t e)))
           (sq_gains (fst (cr_graph cf t e)) ! nat \<lfloor>rand e (rand_pos e) * 4\<rfloor> \<mapsto>
              GainNode (setTargetAtTime 0.5
                (currentTime (sq_ctx (fst (cr_graph cf t e))) (snd (cr_graph cf t e)) + 0.02)
                0.015 (mkParam 0))),
        rand_pos := Suc (rand_pos e),
        sequencerTimer :=
          Some ((fst (cr_graph cf t e))\<lparr>sq_cur := \<lfloor>rand e (rand_pos e) * 4\<rfloor>\<rparr>)\<rparr>))"
proof -
  obtain sq G where g: "cr_graph cf t e = (sq, G)" by (cases "cr_graph cf t e")
  define k where "k = \<lfloor>rand e (rand_pos e) * 4\<rfloor>"
  from floor_draw_range [OF assms] have k: "0 \<le> k" "k < 4" by (simp_all add: k_def)
  then have nk: "nat k < 4" by simp
  have sq: "sq_cur sq = - 1" "length (sq_gains sq) = 4"
    using cr_graph_sq [of cf t e] g by simp_all
  have G: "playing G" "rand G = rand e" "rand_pos G = rand_pos e"
    using cr_graph_misc(1-3) [of cf t e] g by simp_all
  have h: "heap G (sq_gains sq ! nat k) = Some (GainNode (mkParam 0))"
    using cr_graph_gain_nodes [OF nk, of cf t e] g by simp
  from k have ne: "k \<noteq> - 1" by simp
  have d: "draw_next (rand e) (rand_pos e) (- 1) = Some (k, rand_pos e + 1)"
    unfolding k_def
    by (rule draw_next_now [of "rand e" "rand_pos e" "- 1", OF ne [unfolded k_def]])
  show ?thesis
    using k nk h
    by (simp add: playCoordinatedReset_def g step_def sq G d gain_setTargetAtTime_def
        k_def [symmetric])
qed

lemma set_add_edge: "set (add_edge x es) = insert x (set es)"
  by (auto simp: add_edge_def)

lemma node_in_master_edges: "(Node a, p) \<in> set (master_edges es) \<longleftrightarrow> (Node a, p) \<in> set es"
  by (auto simp: master_edges_def set_add_edge)

lemma cr_graph_edges:
  "(Node (next_id e), Input (Node (Suc (next_id e))) 0) \<in> set (edges (snd (cr_graph cf t e)))"
  "(Node (Suc (next_id e)), Input MasterGainRef 0) \<in> set (edges (snd (cr_graph cf t e)))"
  "(Node (Suc (Suc (next_id e))), Input (Node (Suc (Suc (Suc (next_id e))))) 0)
     \<in> set (edges (snd (cr_graph cf t e)))"
  "(Node (Suc (Suc (Suc (next_id e)))), Input MasterGainRef 0)
     \<in> set (edges (snd (cr_graph cf t e)))"
  "(Node (Suc (Suc (Suc (Suc (next_id e))))), Input (Node (Suc (Suc (Suc (Suc (Suc (next_id e))))))) 0)
     \<in> set (edges (snd (cr_graph cf t e)))"
  "(Node (Suc (Suc (Suc (Suc (Suc (next_id e)))))), Input MasterGainRef 0)
     \<in> set (edges (snd (cr_graph cf t e)))"
  "(Node (Suc (Suc (Suc (Suc (Suc (Suc (next_id e))))))),
      Input (Node (Suc (Suc (Suc (Suc (Suc (Suc (Suc (next_id e))))))))) 0)
     \<in> set (edges (snd (cr_graph cf t e)))"
  "(Node (Suc (Suc (Suc (Suc (Suc (Suc (Suc (next_id e)))))))), Input MasterGainRef 0)
     \<in> set (edges (snd (cr_graph cf t e)))"
  by (simp_all add: cr_graph_def ratios_def Let_def nf set_add_edge node_in_master_edges)

subsection \<open>What the sequencer and the calls change\<close>

lemma step_frame:
  assumes "step sq e = Some (Inr (sq', e'))"
  shows "masterGain e' = masterGain e" "playing e' = playing e" "sources e' = sources e"
    "nodes e' = nodes e" "rand e' = rand e" "noiseCache e' = noiseCache e"
    "buffers e' = buffers e" "next_id e' = next_id e" "ctx e' = ctx e"
    "sequencerTimer e' = sequencerTimer e" "now e' = now e" "vol e' = vol e"
    "edges e' = edges e"
proof -
  from step_fields [OF assms] obtain h p where "e' = e\<lparr>heap := h, rand_pos := p\<rparr>"
    by blast
  then show "masterGain e' = masterGain e" "playing e' = playing e" "sources e' = sources e"
    "nodes e' = nodes e" "rand e' = rand e" "noiseCache e' = noiseCache e"
    "buffers e' = buffers e" "next_id e' = next_id e" "ctx e' = ctx e"
    "sequencerTimer e' = sequencerTimer e" "now e' = now e" "vol e' = vol e"
    "edges e' = edges e"
    by simp_all
qed

lemma gain_setTargetAtTime_heap:
  assumes "gain_setTargetAtTime gs k v t tc e = Inr e'"
  shows "heap e' a = heap e a \<or>
         (\<exists>g. heap e a = Some (GainNode g) \<and>
              heap e' a = Some (GainNode (setTargetAtTime v t tc g)))"
  using assms by (auto simp: gain_setTargetAtTime_Inr)

lemma gain_step_refl: "gain_step V n n"
  by (simp add: gain_step_def)

lemma gain_step_trans:
  assumes "gain_step V a b" and "gain_step W b c"
  shows "gain_step (V \<union> W) a c"
proof (cases "b = a")
  case True
  with assms(2) show ?thesis
    unfolding gain_step_def by blast
next
  case False
  with assms(1) obtain g g' where 1: "a = Some (GainNode g)" "b = Some (GainNode g')"
    "pvalue g' = pvalue g" "set (programmed g') \<subseteq> set (programmed g) \<union> V"
    unfolding gain_step_def by blast
  show ?thesis
  proof (cases "c = b")
    case True
    with 1 show ?thesis
      unfolding gain_step_def by blast
  next
    case False
    with assms(2) 1 obtain g'' where 2: "c = Some (GainNode g'')" "pvalue g'' = pvalue g'"
      "set (programmed g'') \<subseteq> set (programmed g') \<union> W"
      unfolding gain_step_def by auto
    from 1(4) 2(3) have "set (programmed g'') \<subseteq> set (programmed g) \<union> (V \<union> W)" by blast
    with 1 2 show ?thesis by (simp add: gain_step_def)
  qed
qed

lemma gain_step_setTargetAtTime:
  "gain_step {v} (Some (GainNode g)) (Some (GainNode (setTargetAtTime v t tc g)))"
  by (auto simp: gain_step_def programmed_def setTargetAtTime_def)

lemma gain_setTargetAtTime_step:
  assumes "gain_setTargetAtTime gs k v t tc e = Inr e'"
  shows "gain_step {v} (heap e a) (heap e' a)"
  using assms by (auto simp: gain_setTargetAtTime_Inr gain_step_refl gain_step_setTargetAtTime)

lemma step_heap:
  assumes "step sq e = Some (Inr (sq', e'))"
  shows "gain_step {0, 0.5} (heap e a) (heap e' a)"
proof (cases "playing e")
  case False
  with assms show ?thesis by (simp add: step_not_playing gain_step_refl)
next
  case True
  from step_playing [OF True assms] obtain "next" pos' e1 where
    a: "(if sq_cur sq \<ge> 0
         then gain_setTargetAtTime (sq_gains sq) (sq_cur sq) 0 (currentTime (sq_ctx sq) e) 0.015 e
         else Inr e) = Inr e1"
    and c: "gain_setTargetAtTime (sq_gains sq) next 0.5 (currentTime (sq_ctx sq) e1 + 0.02) 0.015
        (e1\<lparr>rand_pos := pos'\<rparr>) = Inr e'" by blast
  have 1: "gain_step {0} (heap e a) (heap e1 a)"
  proof (cases "sq_cur sq \<ge> 0")
    case True
    with a show ?thesis by (simp add: gain_setTargetAtTime_step)
  next
    case False
    with a show ?thesis by (simp add: gain_step_refl)
  qed
  from gain_setTargetAtTime_step [OF c, of a]
  have 2: "gain_step {0.5} (heap e1 a) (heap e' a)" by simp
  from gain_step_trans [OF 1 2] show ?thesis by (simp add: insert_commute)
qed

lemma step_freqs_at:
  assumes "step sq e = Some (Inr (sq', e'))"
  shows "freqs_at e' a = freqs_at e a"
  using step_heap [OF assms, of a] by (auto simp: freqs_at_def gain_step_def)

lemma step_gain_values_at:
  assumes "step sq e = Some (Inr (sq', e'))"
  shows "set (gain_values_at e' a) \<subseteq> set (gain_values_at e a) \<union> {0, 0.5}"
  using step_heap [OF assms, of a] by (auto simp: gain_values_at_def gain_step_def)

lemma step_is_gain:
  assumes "step sq e = Some (Inr (sq', e'))"
  shows "(case heap e' a of Some (GainNode g) \<Rightarrow> True | _ \<Rightarrow> False) =
         (case heap e a of Some (GainNode g) \<Rightarrow> True | _ \<Rightarrow> False)"
  using step_heap [OF assms, of a] by (auto simp: gain_step_def)

lemma step_index:
  assumes "playing e" and "step sq e = Some (Inr (sq', e'))"
  shows "sq_cur sq' \<noteq> sq_cur sq \<and> 0 \<le> sq_cur sq' \<and> nat (sq_cur sq') < length (sq_gains sq)"
proof -
  from step_playing [OF assms] obtain "next" pos' e1 where
    a: "(if sq_cur sq \<ge> 0
         then gain_setTargetAtTime (sq_gains sq) (sq_cur sq) 0 (currentTime (sq_ctx sq) e) 0.015 e
         else Inr e) = Inr e1"
    and b: "draw_next (rand e1) (rand_pos e1) (sq_cur sq) = Some (next, pos')"
    and c: "gain_setTargetAtTime (sq_gains sq) next 0.5 (currentTime (sq_ctx sq) e1 + 0.02) 0.015
        (e1\<lparr>rand_pos := pos'\<rparr>) = Inr e'"
    and d: "sq' = sq\<lparr>sq_cur := next\<rparr>" by blast
  from draw_next_fresh [OF b] have "next \<noteq> sq_cur sq" by simp
  moreover from c have "0 \<le> next \<and> nat next < length (sq_gains sq)"
    by (simp add: gain_setTargetAtTime_Inr)
  ultimately show ?thesis using d by simp
qed

lemma playCoordinatedReset_Inr:
  "playCoordinatedReset cf t e = Some (Inr e') \<Longrightarrow>
     \<exists>sq' e2. step (fst (cr_graph cf t e)) (snd (cr_graph cf t e)) = Some (Inr (sq', e2)) \<and>
        e' = e2\<lparr>sequencerTimer := Some sq'\<rparr>"
  by (auto simp: playCoordinatedReset_def split: prod.splits option.splits sum.splits)

lemma sequencer_tick_Inr:
  "sequencer_tick e = Some (Inr e') \<Longrightarrow>
     (sequencerTimer e = None \<and> e' = e) \<or>
     (\<exists>sq sq' e2. sequencerTimer e = Some sq \<and> step sq e = Some (Inr (sq', e2)) \<and>
        e' = e2\<lparr>sequencerTimer := Some sq'\<rparr>)"
  by (auto simp: sequencer_tick_def split: prod.splits option.splits sum.splits)

lemma safe_playCoordinatedReset:
  assumes "playCoordinatedReset cf t e = Some (Inr e')"
  shows "master_gain_safe e' = master_gain_safe e"
proof -
  from playCoordinatedReset_Inr [OF assms] obtain sq' e2 where
    s: "step (fst (cr_graph cf t e)) (snd (cr_graph cf t e)) = Some (Inr (sq', e2))"
    and e': "e' = e2\<lparr>sequencerTimer := Some sq'\<rparr>" by blast
  from step_frame(1) [OF s] e' safe_cr_graph [of cf t e] show ?thesis
    by (simp add: master_gain_safe_def)
qed

lemma safe_sequencer_tick:
  assumes "sequencer_tick e = Some (Inr e')"
  shows "master_gain_safe e' = master_gain_safe e"
  using sequencer_tick_Inr [OF assms] step_frame(1)
  by (auto simp: master_gain_safe_def)

lemma fold_update_node_nf:
  "fold (\<lambda>s e. update_node s (F (currentTime c e)) e) ss e =
     e\<lparr>heap := fold (\<lambda>s. map_at s (F (now e - createdAt c))) ss (heap e)\<rparr>"
  by (induction ss arbitrary: e) (simp_all add: update_node_def currentTime_def)

lemma updateOscFrequency_nf:
  "updateOscFrequency freq e =
     (case ctx e of
        None \<Rightarrow> e
      | Some c \<Rightarrow>
          e\<lparr>heap := fold (\<lambda>s. map_at s (osc_setFrequency (clampFreq freq) (now e - createdAt c)))
                      (sources e) (heap e)\<rparr>)"
  by (simp add: updateOscFrequency_def Let_def fold_update_node_nf split: option.splits)

lemma updateFilterFrequency_nf:
  "updateFilterFrequency freq e =
     (case ctx e of
        None \<Rightarrow> e
      | Some c \<Rightarrow>
          e\<lparr>heap := fold (\<lambda>s. map_at s (filter_setFrequency (clampFreq freq) (now e - createdAt c)))
                      (nodes e) (heap e)\<rparr>)"
  by (simp add: updateFilterFrequency_def fold_update_node_nf split: option.splits)

lemma safe_updateOscFrequency: "master_gain_safe (updateOscFrequency f e) = master_gain_safe e"
  by (simp add: updateOscFrequency_nf master_gain_safe_def split: option.splits)

lemma safe_updateFilterFrequency:
  "master_gain_safe (updateFilterFrequency f e) = master_gain_safe e"
  by (simp add: updateFilterFrequency_nf master_gain_safe_def split: option.splits)

lemma safe_destroy: "master_gain_safe (destroy e)"
  by (simp add: destroy_def destroy_timeout_def master_gain_safe_def safe_opt_def
      split: prod.splits Promise.splits)

lemma safe_advance: "master_gain_safe (advance dt e) = master_gain_safe e"
  by (simp add: advance_def master_gain_safe_def)

lemma safe_play:
  "play m e = Some (Inr e') \<Longrightarrow> master_gain_safe e' = master_gain_safe e"
  by (cases m)
     (auto simp: safe_playTone safe_playNoise safe_playNotchedNoise safe_playAM
        safe_playBinaural safe_playResidualInhibition safe_playPhaseCancellation
        safe_playCoordinatedReset)

lemma safe_exec:
  "master_gain_safe e \<Longrightarrow> exec c e = Some (Inr e') \<Longrightarrow> master_gain_safe e'"
  by (cases c)
     (auto simp: safe_play safe_await_stop safe_setVolume safe_updateOscFrequency
        safe_updateFilterFrequency safe_destroy safe_sequencer_tick safe_advance ri_timeout_def)

lemma safe_run:
  "master_gain_safe e \<Longrightarrow> run cs e = Some (Inr e') \<Longrightarrow> master_gain_safe e'"
proof (induction cs arbitrary: e)
  case Nil
  then show ?case by simp
next
  case (Cons c cs)
  from Cons.prems(2) obtain e1 where 1: "exec c e = Some (Inr e1)" and 2: "run cs e1 = Some (Inr e')"
    by (auto split: option.splits sum.splits)
  from safe_exec [OF Cons.prems(1) 1] have "master_gain_safe e1" .
  from Cons.IH [OF this 2] show ?case .
qed

lemma tone_values_tick:
  assumes "sequencer_tick e = Some (Inr e')"
  shows "set (tone_values e') \<subseteq> set (tone_values e) \<union> {0, 0.5}"
proof -
  from sequencer_tick_Inr [OF assms] show ?thesis
  proof
    assume "sequencerTimer e = None \<and> e' = e"
    then show ?thesis by auto
  next
    assume "\<exists>sq sq' e2. sequencerTimer e = Some sq \<and> step sq e = Some (Inr (sq', e2)) \<and>
        e' = e2\<lparr>sequencerTimer := Some sq'\<rparr>"
    then obtain sq sq' e2 where t: "sequencerTimer e = Some sq"
      and s: "step sq e = Some (Inr (sq', e2))"
      and e': "e' = e2\<lparr>sequencerTimer := Some sq'\<rparr>" by blast
    from step_fields [OF s] have g: "sq_gains sq' = sq_gains sq" by simp
    have v: "\<And>a. set (gain_values_at e' a) \<subseteq> set (gain_values_at e a) \<union> {0, 0.5}"
      using step_gain_values_at [OF s] e' by (simp add: gain_values_at_def)
    show ?thesis
      using v by (auto simp: tone_values_def t e' g)
  qed
qed

lemma gain_values_at_heap: "heap e' = heap e \<Longrightarrow> gain_values_at e' a = gain_values_at e a"
  by (simp add: gain_values_at_def)

lemma cr_graph_gain_values:
  "a \<in> set (sq_gains (fst (cr_graph cf t e))) \<Longrightarrow>
     gain_values_at (snd (cr_graph cf t e)) a = [0]"
  by (auto simp: cr_graph_sq cr_graph_heap gain_values_at_def programmed_def mkParam_def)

lemma tone_values_playCoordinatedReset:
  assumes "playCoordinatedReset cf t e = Some (Inr e')"
  shows "set (tone_values e') \<subseteq> {0, 0.5}"
proof -
  from playCoordinatedReset_Inr [OF assms] obtain sq' e2 where
    s: "step (fst (cr_graph cf t e)) (snd (cr_graph cf t e)) = Some (Inr (sq', e2))"
    and e': "e' = e2\<lparr>sequencerTimer := Some sq'\<rparr>" by blast
  from step_fields [OF s] have g: "sq_gains sq' = sq_gains (fst (cr_graph cf t e))" by simp
  have h: "gain_values_at e' a = gain_values_at e2 a" for a
    using e' by (simp add: gain_values_at_def)
  have "set (gain_values_at e' a) \<subseteq> {0, 0.5}" if "a \<in> set (sq_gains sq')" for a
    using step_gain_values_at [OF s, of a] cr_graph_gain_values [of a cf t e] that g
    by (auto simp: h)
  then show ?thesis
    by (auto simp: tone_values_def e')
qed

lemma demo_cr:
  "playCoordinatedReset 4000 None demo_engine =
     Some (Inr ((snd (cr_graph 4000 None demo_engine))
       \<lparr>heap := (heap (snd (cr_graph 4000 None demo_engine)))
           (1 \<mapsto> GainNode (setTargetAtTime 0.5
                (currentTime (sq_ctx (fst (cr_graph 4000 None demo_engine)))
                   (snd (cr_graph 4000 None demo_engine)) + 0.02)
                0.015 (mkParam 0))),
        rand_pos := 1,
        sequencerTimer := Some ((fst (cr_graph 4000 None demo_engine))\<lparr>sq_cur := 0\<rparr>)\<rparr>))"
proof -
  have f: "\<lfloor>demo_rand 0 * 4\<rfloor> = (0::int)"
    by (simp add: demo_rand_def floor_eq_iff)
  have "0 \<le> rand demo_engine (rand_pos demo_engine)"
    and "rand demo_engine (rand_pos demo_engine) < 1"
    by (simp_all add: demo_engine_fields demo_rand_def)
  from playCoordinatedReset_eq [OF this, of 4000 None] show ?thesis
    by (simp add: f cr_graph_sq demo_engine_fields)
qed

lemma demo_next_id: "next_id demo_engine = 0"
  by (simp add: demo_engine_fields)

lemmas demo_cr_heap = cr_graph_heap [of 4000 None demo_engine, unfolded demo_next_id]



subsection \<open>The frequencies of the graph of each mode\<close>

lemmas graph_simps = graph_freqs_def freqs_at_def Let_def nf map_at_apply programmed_def
  mkParam_def

lemma graph_freqs_playTone: "graph_freqs (playTone f w e) = [clampFreq f]"
  by (simp add: playTone_def graph_simps)

lemma graph_freqs_playNoise_None: "graph_freqs (playNoise c None q e) = []"
  by (simp add: playNoise_def graph_simps)

lemma graph_freqs_playNoise_zero: "graph_freqs (playNoise c (Some 0) q e) = []"
  by (simp add: playNoise_def graph_simps)

lemma graph_freqs_playNoise_Some:
  "x \<noteq> 0 \<Longrightarrow> graph_freqs (playNoise c (Some x) q e) = [clampFreq x]"
  by (simp add: playNoise_def graph_simps)

lemma graph_freqs_playNoise:
  "graph_freqs (playNoise c cf q e) =
     (case cf of None \<Rightarrow> [] | Some x \<Rightarrow> if x \<noteq> 0 then [clampFreq x] else [])"
proof (cases cf)
  case None
  then show ?thesis by (simp add: graph_freqs_playNoise_None)
next
  case (Some x)
  then show ?thesis
    by (cases "x = 0") (simp_all add: graph_freqs_playNoise_zero graph_freqs_playNoise_Some)
qed

lemma graph_freqs_playNotchedNoise: "graph_freqs (playNotchedNoise f q c e) = [clampFreq f]"
  by (simp add: playNotchedNoise_def graph_simps)

lemma graph_freqs_playAM: "graph_freqs (playAM f r d e) = [clampFreq f, nullish r 10]"
  by (simp add: playAM_def graph_simps)

lemma graph_freqs_playBinaural:
  "graph_freqs (playBinaural f b e) = [clampFreq f, clampFreq (f + nullish b 10)]"
  by (simp add: playBinaural_def graph_simps)

lemma graph_freqs_playPhaseCancellation:
  "graph_freqs (playPhaseCancellation f e) = [clampFreq f]"
  by (simp add: playPhaseCancellation_def graph_simps)

lemma graph_freqs_cong:
  "heap e' = heap e \<Longrightarrow> sources e' = sources e \<Longrightarrow> nodes e' = nodes e \<Longrightarrow>
     graph_freqs e' = graph_freqs e"
proof -
  assume h: "heap e' = heap e" and "sources e' = sources e" and "nodes e' = nodes e"
  from h have "freqs_at e' = freqs_at e"
    by (intro ext) (simp add: freqs_at_def)
  with \<open>sources e' = sources e\<close> \<open>nodes e' = nodes e\<close> show ?thesis
    by (simp add: graph_freqs_def)
qed

lemma graph_freqs_playResidualInhibition:
  "graph_freqs (playResidualInhibition f d e) = [clampFreq f]"
proof -
  have "graph_freqs (playResidualInhibition f d e) = graph_freqs (playTone f (Some Sine) e)"
    by (rule graph_freqs_cong) (simp_all add: playResidualInhibition_def Let_def)
  then show ?thesis by (simp add: graph_freqs_playTone)
qed

lemma graph_freqs_cr_graph:
  "graph_freqs (snd (cr_graph cf t e)) = map (\<lambda>r. clampFreq (cf * r)) ratios"
  by (simp add: graph_freqs_def freqs_at_def cr_graph_misc cr_graph_heap ratios_def
      programmed_def mkParam_def)

lemma graph_freqs_playCoordinatedReset:
  assumes "playCoordinatedReset cf t e = Some (Inr e')"
  shows "graph_freqs e' = map (\<lambda>r. clampFreq (cf * r)) ratios"
proof -
  from playCoordinatedReset_Inr [OF assms] obtain sq' e2 where
    s: "step (fst (cr_graph cf t e)) (snd (cr_graph cf t e)) = Some (Inr (sq', e2))"
    and e': "e' = e2\<lparr>sequencerTimer := Some sq'\<rparr>" by blast
  have "freqs_at e' a = freqs_at (snd (cr_graph cf t e)) a" for a
    using step_freqs_at [OF s, of a] e' by (simp add: freqs_at_def)
  then have "freqs_at e' = freqs_at (snd (cr_graph cf t e))"
    by (intro ext)
  moreover have "sources e' = sources (snd (cr_graph cf t e))"
    and "nodes e' = nodes (snd (cr_graph cf t e))"
    using step_frame(3,4) [OF s] e' by simp_all
  ultimately have "graph_freqs e' = graph_freqs (snd (cr_graph cf t e))"
    by (simp add: graph_freqs_def)
  then show ?thesis by (simp add: graph_freqs_cr_graph)
qed

subsection \<open>Runs of the sequencer\<close>

lemma gain_setTargetAtTime_returns:
  "0 \<le> k \<Longrightarrow> nat k < length gs \<Longrightarrow> heap e (gs ! nat k) = Some (GainNode g) \<Longrightarrow>
     gain_setTargetAtTime gs k v t tc e =
       Inr (e\<lparr>heap := (heap e)(gs ! nat k \<mapsto> GainNode (setTargetAtTime v t tc g))\<rparr>)"
  by (simp add: gain_setTargetAtTime_def)

lemma is_gain_iff:
  "(case n of Some (GainNode g) \<Rightarrow> True | _ \<Rightarrow> False) = (\<exists>g. n = Some (GainNode g))"
  by (auto split: option.splits AudioNode.splits)

lemma draw_next_returns:
  assumes "draws_in_range rnd" and "never_stuck rnd"
  shows "\<exists>k pos'. draw_next rnd pos cur = Some (k, pos') \<and> k \<noteq> cur \<and> 0 \<le> k \<and> k < 4"
proof -
  from assms(2) obtain j where "j \<ge> pos" and "\<lfloor>rnd j * 4\<rfloor> \<noteq> cur"
    unfolding never_stuck_def by blast
  then have "\<lfloor>rnd (pos + (j - pos)) * 4\<rfloor> \<noteq> cur" by simp
  from draw_next_terminates [of rnd pos "j - pos" cur, OF this] obtain y where y: "draw_next rnd pos cur = Some y" ..
  from draw_next_fresh [OF y] have f: "fst y \<noteq> cur" "fst y = \<lfloor>rnd (snd y - 1) * 4\<rfloor>"
    by simp_all
  from assms(1) have "0 \<le> rnd (snd y - 1)" "rnd (snd y - 1) < 1"
    unfolding draws_in_range_def by simp_all
  from floor_draw_range [OF this] f have "0 \<le> fst y \<and> fst y < 4" by simp
  with y f show ?thesis by (cases y) auto
qed

lemma step_returns:
  assumes pl: "playing e"
    and gains: "list_all (\<lambda>a. case heap e a of Some (GainNode g) \<Rightarrow> True | _ \<Rightarrow> False)
                  (sq_gains sq)"
    and len: "length (sq_gains sq) = 4"
    and cur: "- 1 \<le> sq_cur sq" "sq_cur sq < 4"
    and rnd: "draws_in_range (rand e)" "never_stuck (rand e)"
  shows "\<exists>sq' e'. step sq e = Some (Inr (sq', e'))"
proof -
  have g: "\<exists>g. heap e (sq_gains sq ! i) = Some (GainNode g)" if "i < 4" for i
    using gains that len by (simp add: list_all_length is_gain_iff)
  have "\<exists>e1. (if sq_cur sq \<ge> 0
         then gain_setTargetAtTime (sq_gains sq) (sq_cur sq) 0 (currentTime (sq_ctx sq) e) 0.015 e
         else Inr e) = Inr e1"
  proof (cases "sq_cur sq \<ge> 0")
    case True
    with cur have n: "nat (sq_cur sq) < 4" by simp
    from g [OF n] obtain g0 where "heap e (sq_gains sq ! nat (sq_cur sq)) = Some (GainNode g0)" ..
    from gain_setTargetAtTime_returns [OF True _ this] n len True show ?thesis by simp
  next
    case False
    then show ?thesis by simp
  qed
  then obtain e1 where a: "(if sq_cur sq \<ge> 0
         then gain_setTargetAtTime (sq_gains sq) (sq_cur sq) 0 (currentTime (sq_ctx sq) e) 0.015 e
         else Inr e) = Inr e1" ..
  have st: "gain_step {0} (heap e x) (heap e1 x)" for x
  proof (cases "sq_cur sq \<ge> 0")
    case True
    with a show ?thesis by (simp add: gain_setTargetAtTime_step)
  next
    case False
    with a show ?thesis by (simp add: gain_step_refl)
  qed
  have fr: "rand e1 = rand e" "rand_pos e1 = rand_pos e"
    using a by (auto simp: gain_setTargetAtTime_Inr split: if_splits)
  from draw_next_returns [OF rnd, of "rand_pos e" "sq_cur sq"] obtain k pos' where
    d: "draw_next (rand e) (rand_pos e) (sq_cur sq) = Some (k, pos')"
    and k: "0 \<le> k" "k < 4" by blast
  from k have nk: "nat k < 4" by simp
  from g [OF nk] obtain g1 where "heap e (sq_gains sq ! nat k) = Some (GainNode g1)" ..
  with st [of "sq_gains sq ! nat k"] obtain g2 where
    "heap e1 (sq_gains sq ! nat k) = Some (GainNode g2)"
    by (auto simp: gain_step_def)
  then have "heap (e1\<lparr>rand_pos := pos'\<rparr>) (sq_gains sq ! nat k) = Some (GainNode g2)" by simp
  from gain_setTargetAtTime_returns [OF k(1) _ this] nk len
  have c: "\<exists>e'. gain_setTargetAtTime (sq_gains sq) k 0.5 (currentTime (sq_ctx sq) e1 + 0.02) 0.015
        (e1\<lparr>rand_pos := pos'\<rparr>) = Inr e'" by simp
  then obtain e' where "gain_setTargetAtTime (sq_gains sq) k 0.5
        (currentTime (sq_ctx sq) e1 + 0.02) 0.015 (e1\<lparr>rand_pos := pos'\<rparr>) = Inr e'" ..
  with pl a d fr show ?thesis
    by (simp add: step_def)
qed

lemma cr_running_iff:
  "cr_running e \<longleftrightarrow>
     playing e \<and> (\<exists>sq. sequencerTimer e = Some sq \<and> length (sq_gains sq) = 4 \<and>
        - 1 \<le> sq_cur sq \<and> sq_cur sq < 4 \<and>
        list_all (\<lambda>a. case heap e a of Some (GainNode g) \<Rightarrow> True | _ \<Rightarrow> False) (sq_gains sq))"
  by (auto simp: cr_running_def split: option.splits)

lemma tick_cr_running:
  assumes "cr_running e" and "sequencer_tick e = Some (Inr e')"
  shows "cr_running e' \<and> selected e' \<noteq> selected e \<and> 0 \<le> selected e' \<and> selected e' < 4
         \<and> rand e' = rand e"
proof -
  from assms(1) obtain sq where pl: "playing e" and t: "sequencerTimer e = Some sq"
    and len: "length (sq_gains sq) = 4"
    and gains: "list_all (\<lambda>a. case heap e a of Some (GainNode g) \<Rightarrow> True | _ \<Rightarrow> False)
                  (sq_gains sq)"
    unfolding cr_running_iff by blast
  from sequencer_tick_Inr [OF assms(2)] t obtain sq' e2 where
    s: "step sq e = Some (Inr (sq', e2))" and e': "e' = e2\<lparr>sequencerTimer := Some sq'\<rparr>"
    by auto
  from step_index [OF pl s] len
  have i: "sq_cur sq' \<noteq> sq_cur sq" "0 \<le> sq_cur sq'" "sq_cur sq' < 4" by auto
  from step_fields [OF s] have g: "sq_gains sq' = sq_gains sq" by simp
  have "list_all (\<lambda>a. case heap e2 a of Some (GainNode g) \<Rightarrow> True | _ \<Rightarrow> False) (sq_gains sq)"
    using gains step_is_gain [OF s] by simp
  with pl step_frame(2,5) [OF s] i g len e' t show ?thesis
    by (simp add: cr_running_iff selected_def)
qed

lemma tick_returns:
  assumes "cr_running e" and "draws_in_range (rand e)" and "never_stuck (rand e)"
  shows "\<exists>e'. sequencer_tick e = Some (Inr e')"
proof -
  from assms(1) obtain sq where pl: "playing e" and t: "sequencerTimer e = Some sq"
    and len: "length (sq_gains sq) = 4" and cur: "- 1 \<le> sq_cur sq" "sq_cur sq < 4"
    and gains: "list_all (\<lambda>a. case heap e a of Some (GainNode g) \<Rightarrow> True | _ \<Rightarrow> False)
                  (sq_gains sq)"
    unfolding cr_running_iff by blast
  from step_returns [OF pl gains len cur assms(2,3)] obtain sq' e2 where
    "step sq e = Some (Inr (sq', e2))" by blast
  with t show ?thesis by (simp add: sequencer_tick_def)
qed

lemma interval_ticks_run:
  assumes "cr_running e" and "draws_in_range (rand e)" and "never_stuck (rand e)"
  shows "\<exists>ks e'. interval_ticks n e = Some (Inr (ks, e')) \<and> length ks = n \<and>
           (\<forall>i<n. (selected e # ks) ! Suc i \<noteq> (selected e # ks) ! i) \<and>
           list_all (\<lambda>k. 0 \<le> k \<and> k < 4) ks"
  using assms
proof (induction n arbitrary: e)
  case 0
  then show ?case by simp
next
  case (Suc n)
  from tick_returns [OF Suc.prems] obtain e1 where t: "sequencer_tick e = Some (Inr e1)" ..
  from tick_cr_running [OF Suc.prems(1) t]
  have r: "cr_running e1" and d: "selected e1 \<noteq> selected e"
    and b: "0 \<le> selected e1" "selected e1 < 4" and rnd: "rand e1 = rand e" by simp_all
  from Suc.IH [OF r] Suc.prems(2,3) rnd obtain ks e2 where
    i: "interval_ticks n e1 = Some (Inr (ks, e2))" and l: "length ks = n"
    and nr: "\<forall>i<n. (selected e1 # ks) ! Suc i \<noteq> (selected e1 # ks) ! i"
    and rg: "list_all (\<lambda>k. 0 \<le> k \<and> k < 4) ks" by auto
  have "(selected e # selected e1 # ks) ! Suc i \<noteq> (selected e # selected e1 # ks) ! i"
    if "i < Suc n" for i
    using that d nr by (cases i) simp_all
  with t i l rg b show ?case by simp
qed

lemma playCoordinatedReset_running:
  assumes "0 \<le> rand e (rand_pos e)" and "rand e (rand_pos e) < 1"
  shows "\<exists>e1. playCoordinatedReset cf t e = Some (Inr e1) \<and> cr_running e1 \<and>
           0 \<le> selected e1 \<and> selected e1 < 4 \<and> rand e1 = rand e"
proof -
  define k where "k = \<lfloor>rand e (rand_pos e) * 4\<rfloor>"
  from floor_draw_range [OF assms] have k: "0 \<le> k" "k < 4" by (simp_all add: k_def)
  have gl: "list_all (\<lambda>a. \<exists>g. (if a = sq_gains (fst (cr_graph cf t e)) ! nat k then Some g'
              else heap (snd (cr_graph cf t e)) a) = Some (GainNode g))
            (sq_gains (fst (cr_graph cf t e)))" if "g' = GainNode gg" for g' gg
    using that cr_graph_gain_nodes [of _ cf t e]
    by (simp add: list_all_length cr_graph_sq)
  show ?thesis
    using k gl [OF refl]
    by (simp add: playCoordinatedReset_eq [OF assms] k_def [symmetric] cr_running_iff
        selected_def cr_graph_misc cr_graph_sq is_gain_iff)
qed


lemma demo_rand_floor: "\<lfloor>demo_rand j * 4\<rfloor> = (if even j then 0 else 2)"
  by (simp add: demo_rand_def floor_eq_iff)

lemma demo_rand_in_range: "draws_in_range demo_rand"
  by (simp add: draws_in_range_def demo_rand_def)

lemma demo_rand_never_stuck: "never_stuck demo_rand"
  unfolding never_stuck_def
proof (intro allI)
  fix k :: nat and c :: int
  show "\<exists>j\<ge>k. \<lfloor>demo_rand j * 4\<rfloor> \<noteq> c"
  proof (cases "\<lfloor>demo_rand k * 4\<rfloor> = c")
    case False
    then show ?thesis by blast
  next
    case True
    then have "\<lfloor>demo_rand (Suc k) * 4\<rfloor> \<noteq> c"
      by (auto simp: demo_rand_floor split: if_splits)
    moreover have "Suc k \<ge> k" by simp
    ultimately show ?thesis by blast
  qed
qed

subsection \<open>Live frequency updates\<close>

lemma fold_map_at_notin: "a \<notin> set ss \<Longrightarrow> fold (\<lambda>s. map_at s F) ss h a = h a"
  by (induction ss arbitrary: h) (simp_all add: map_at_apply)

lemma fold_osc_setFrequency_other:
  "\<forall>ty fr st. h a \<noteq> Some (OscillatorNode ty fr st) \<Longrightarrow>
     fold (\<lambda>s. map_at s (osc_setFrequency f t)) ss h a = h a"
proof (induction ss arbitrary: h)
  case Nil
  then show ?case by simp
next
  case (Cons x xs)
  have "map_at x (osc_setFrequency f t) h a = h a"
  proof (cases "h a")
    case None
    then show ?thesis by (auto simp: map_at_apply)
  next
    case (Some n)
    with Cons.prems show ?thesis by (cases n) (auto simp: map_at_apply)
  qed
  with Cons.IH [of "map_at x (osc_setFrequency f t) h"] Cons.prems show ?case by simp
qed

lemma current_target_setValueAtTime: "current_target (setValueAtTime v t p) = v"
  by (simp add: current_target_def programmed_def setValueAtTime_def)

lemma fold_osc_setFrequency_osc:
  "h a = Some (OscillatorNode ty fr st) \<Longrightarrow> a \<in> set ss \<or> current_target fr = f \<Longrightarrow>
     \<exists>fr'. fold (\<lambda>s. map_at s (osc_setFrequency f t)) ss h a = Some (OscillatorNode ty fr' st)
          \<and> current_target fr' = f \<and> pvalue fr' = pvalue fr"
proof (induction ss arbitrary: h fr)
  case Nil
  then show ?case by simp
next
  case (Cons x xs)
  show ?case
  proof (cases "x = a")
    case True
    with Cons.prems(1)
    have "map_at x (osc_setFrequency f t) h a = Some (OscillatorNode ty (setValueAtTime f t fr) st)"
      by (simp add: map_at_apply)
    moreover have "a \<in> set xs \<or> current_target (setValueAtTime f t fr) = f"
      by (simp add: current_target_setValueAtTime)
    ultimately obtain fr' where
      "fold (\<lambda>s. map_at s (osc_setFrequency f t)) xs (map_at x (osc_setFrequency f t) h) a
         = Some (OscillatorNode ty fr' st)"
      and "current_target fr' = f" and "pvalue fr' = pvalue (setValueAtTime f t fr)"
      using Cons.IH [of "map_at x (osc_setFrequency f t) h" "setValueAtTime f t fr"] by blast
    then show ?thesis
      by (simp add: setValueAtTime_def)
  next
    case False
    with Cons.prems(1)
    have 1: "map_at x (osc_setFrequency f t) h a = Some (OscillatorNode ty fr st)"
      by (simp add: map_at_apply)
    from False Cons.prems(2) have "a \<in> set xs \<or> current_target fr = f" by auto
    from Cons.IH [of "map_at x (osc_setFrequency f t) h" fr, OF 1 this]
    show ?thesis by simp
  qed
qed

lemma playAM_sources: "sources (playAM f r d e) = [next_id e, Suc (next_id e)]"
  by (simp add: playAM_def Let_def nf)

lemma playAM_heap:
  "heap (playAM f r d e) (next_id e) = Some (OscillatorNode Sine (mkParam (clampFreq f)) Started)"
  "heap (playAM f r d e) (Suc (next_id e)) = Some (OscillatorNode Sine (mkParam (nullish r 10)) Started)"
  by (simp_all add: playAM_def Let_def nf map_at_apply)

lemma playAM_ctx:
  "ctx (playAM f r d e) =
     Some (ctx_or_new (ctx e) (platform_rate e) (stop_now (playing e) (sources e) (now e)))"
  by (simp add: playAM_def Let_def nf)

lemma playBinaural_sources:
  "sources (playBinaural f b e) = [Suc (next_id e), Suc (Suc (next_id e))]"
  by (simp add: playBinaural_def Let_def nf)

lemma playBinaural_heap:
  "heap (playBinaural f b e) (Suc (next_id e)) =
     Some (OscillatorNode Sine (mkParam (clampFreq f)) Started)"
  "heap (playBinaural f b e) (Suc (Suc (next_id e))) =
     Some (OscillatorNode Sine (mkParam (clampFreq (f + nullish b 10))) Started)"
  by (simp_all add: playBinaural_def Let_def nf map_at_apply)

lemma playBinaural_ctx:
  "ctx (playBinaural f b e) =
     Some (ctx_or_new (ctx e) (platform_rate e) (stop_now (playing e) (sources e) (now e)))"
  by (simp add: playBinaural_def Let_def nf)

lemma source_targets_playAM:
  "source_targets (playAM fr r d e) = [Some (clampFreq fr), Some (nullish r 10)]"
  by (simp add: source_targets_def playAM_sources playAM_heap current_target_def programmed_def
      mkParam_def)

lemma source_targets_playBinaural:
  "source_targets (playBinaural b beat e) =
     [Some (clampFreq b), Some (clampFreq (b + nullish beat 10))]"
  by (simp add: source_targets_def playBinaural_sources playBinaural_heap current_target_def
      programmed_def mkParam_def)

lemma source_targets_update_playAM:
  "source_targets (updateOscFrequency f (playAM fr r d e)) =
     [Some (clampFreq f), Some (clampFreq f)]"
  by (simp add: source_targets_def updateOscFrequency_nf playAM_ctx playAM_sources playAM_heap
      map_at_apply current_target_setValueAtTime)

lemma source_targets_update_playBinaural:
  "source_targets (updateOscFrequency f (playBinaural b beat e)) =
     [Some (clampFreq f), Some (clampFreq f)]"
  by (simp add: source_targets_def updateOscFrequency_nf playBinaural_ctx playBinaural_sources
      playBinaural_heap map_at_apply current_target_setValueAtTime)

subsection \<open>The generator loops\<close>

text \<open>The loops, from an index \<open>i\<close> on: what they leave below \<open>i\<close> and what they write.\<close>

lemma white_loop_length: "length (fst (white_loop rnd N i pos d)) = length d"
  by (induction rnd N i pos d rule: white_loop.induct) (subst white_loop.simps, simp)

lemma white_loop_pos: "snd (white_loop rnd N i pos d) = pos + (N - i)"
  by (induction rnd N i pos d rule: white_loop.induct) (subst white_loop.simps, auto)

lemma white_loop_nth:
  "length d = N \<Longrightarrow> j < N \<Longrightarrow>
     fst (white_loop rnd N i pos d) ! j = (if j < i then d ! j else rnd (pos + (j - i)) * 2 - 1)"
proof (induction rnd N i pos d rule: white_loop.induct)
  case (1 rnd N i pos d)
  show ?case
  proof (cases "i < N")
    case True
    from 1(1) [OF True] 1(2,3)
    have "fst (white_loop rnd N (i + 1) (pos + 1) (d[i := rnd pos * 2 - 1])) ! j =
        (if j < i + 1 then d[i := rnd pos * 2 - 1] ! j else rnd (pos + 1 + (j - (i + 1))) * 2 - 1)"
      by simp
    with True 1(2,3) show ?thesis
      by (subst white_loop.simps) (auto simp: nth_list_update less_Suc_eq Suc_diff_Suc)
  next
    case False
    with 1(2,3) show ?thesis by (subst white_loop.simps) simp
  qed
qed

lemma brown_loop_stop: "\<not> i < N \<Longrightarrow> brown_loop rnd N i pos l d = (d, pos)"
  by (subst brown_loop.simps) simp

lemma brown_loop_rec:
  "i < N \<Longrightarrow> i < length d \<Longrightarrow>
     brown_loop rnd N i pos l d =
       brown_loop rnd N (i + 1) (pos + 1) ((l + 0.02 * (rnd pos * 2 - 1)) / 1.02)
         (d[i := (l + 0.02 * (rnd pos * 2 - 1)) / 1.02 * 3.5])"
  by (subst brown_loop.simps)
     (simp only: Let_def if_True nth_list_update_eq list_update_overwrite)

lemma walk_from_shift:
  "walk_from ((l + 0.02 * w 0) / 1.02) (\<lambda>j. w (Suc j)) i = walk_from l w (Suc i)"
  by (induction i) simp_all

lemma brown_loop_nth:
  "length d = N \<Longrightarrow> j < N \<Longrightarrow>
     fst (brown_loop rnd N i pos l d) ! j =
       (if j < i then d ! j else walk_from l (\<lambda>m. rnd (pos + m) * 2 - 1) (j - i) * 3.5)"
proof (induction "N - i" arbitrary: i pos l d)
  case 0
  then show ?case by (simp add: brown_loop_stop)
next
  case (Suc n)
  then have i: "i < N" "i < length d" by simp_all
  let ?l = "(l + 0.02 * (rnd pos * 2 - 1)) / 1.02"
  let ?d = "d[i := ?l * 3.5]"
  from Suc(2) have n: "n = N - (i + 1)" by simp
  have len: "length ?d = N" using Suc.prems by simp
  note ih = Suc(1) [OF n len Suc.prems(2), of "pos + 1" ?l]
  show ?case
  proof (cases "j < i")
    case True
    with ih i show ?thesis by (simp add: brown_loop_rec)
  next
    case False
    show ?thesis
    proof (cases "j = i")
      case True
      with ih i show ?thesis by (simp add: brown_loop_rec)
    next
      case False
      with \<open>\<not> j < i\<close> obtain m where m: "j - i = Suc m" "j - (i + 1) = m"
        by (cases "j - i") auto
      have "walk_from ?l (\<lambda>m. rnd (pos + 1 + m) * 2 - 1) m
          = walk_from l (\<lambda>m. rnd (pos + m) * 2 - 1) (Suc m)"
        using walk_from_shift [of l "\<lambda>m. rnd (pos + m) * 2 - 1" m]
        by (simp del: walk_from.simps)
      with ih i m False \<open>\<not> j < i\<close> show ?thesis
        by (simp add: brown_loop_rec del: walk_from.simps)
    qed
  qed
qed

lemma walk_from_0: "walk_from 0 w i = brown_walk w i"
  by (induction i) simp_all

lemma pink_loop_stop:
  "\<not> i < N \<Longrightarrow> pink_loop rnd N i pos b0 b1 b2 b3 b4 b5 b6 d = (d, pos)"
  by (subst pink_loop.simps) simp

lemma pink_loop_rec:
  "i < N \<Longrightarrow>
     pink_loop rnd N i pos b0 b1 b2 b3 b4 b5 b6 d =
       pink_loop rnd N (i + 1) (pos + 1)
         (0.99886 * b0 + (rnd pos * 2 - 1) * 0.0555179)
         (0.99332 * b1 + (rnd pos * 2 - 1) * 0.0750759)
         (0.96900 * b2 + (rnd pos * 2 - 1) * 0.1538520)
         (0.86650 * b3 + (rnd pos * 2 - 1) * 0.3104856)
         (0.55000 * b4 + (rnd pos * 2 - 1) * 0.5329522)
         (- 0.7616 * b5 - (rnd pos * 2 - 1) * 0.0168980)
         ((rnd pos * 2 - 1) * 0.115926)
         (d[i := (0.99886 * b0 + (rnd pos * 2 - 1) * 0.0555179
                  + (0.99332 * b1 + (rnd pos * 2 - 1) * 0.0750759)
                  + (0.96900 * b2 + (rnd pos * 2 - 1) * 0.1538520)
                  + (0.86650 * b3 + (rnd pos * 2 - 1) * 0.3104856)
                  + (0.55000 * b4 + (rnd pos * 2 - 1) * 0.5329522)
                  + (- 0.7616 * b5 - (rnd pos * 2 - 1) * 0.0168980)
                  + b6 + (rnd pos * 2 - 1) * 0.5362) * 0.11])"
  by (subst pink_loop.simps) (simp only: Let_def if_True)

lemma state_from_shift:
  "state_from (dc * b + w 0 * wt) dc wt (\<lambda>j. w (Suc j)) i = state_from b dc wt w (Suc i)"
  by (induction i) simp_all

lemma carry_from_shift:
  "carry_from (w 0 * 0.115926) (\<lambda>j. w (Suc j)) i = carry_from b6 w (Suc i)"
  by (cases i) (simp_all add: carry_from_def)

lemma pink_mix_shift:
  "pink_mix (0.99886 * b0 + w 0 * 0.0555179) (0.99332 * b1 + w 0 * 0.0750759)
      (0.96900 * b2 + w 0 * 0.1538520) (0.86650 * b3 + w 0 * 0.3104856)
      (0.55000 * b4 + w 0 * 0.5329522) (- 0.7616 * b5 - w 0 * 0.0168980)
      (w 0 * 0.115926) (\<lambda>j. w (Suc j)) i
   = pink_mix b0 b1 b2 b3 b4 b5 b6 w (Suc i)"
proof -
  have 5: "- 0.7616 * b5 - w 0 * 0.0168980 = (- 0.7616) * b5 + w 0 * (- 0.0168980)"
    by simp
  show ?thesis
    unfolding pink_mix_def 5 state_from_shift carry_from_shift [of w i b6] ..
qed

lemma pink_mix_0:
  "pink_mix b0 b1 b2 b3 b4 b5 b6 w 0 =
     (0.99886 * b0 + w 0 * 0.0555179
        + (0.99332 * b1 + w 0 * 0.0750759)
        + (0.96900 * b2 + w 0 * 0.1538520)
        + (0.86650 * b3 + w 0 * 0.3104856)
        + (0.55000 * b4 + w 0 * 0.5329522)
        + (- 0.7616 * b5 - w 0 * 0.0168980)
        + b6 + w 0 * 0.5362) * 0.11"
  by (simp add: pink_mix_def carry_from_def)

lemma pink_loop_nth:
  "length d = N \<Longrightarrow> j < N \<Longrightarrow>
     fst (pink_loop rnd N i pos b0 b1 b2 b3 b4 b5 b6 d) ! j =
       (if j < i then d ! j
        else pink_mix b0 b1 b2 b3 b4 b5 b6 (\<lambda>m. rnd (pos + m) * 2 - 1) (j - i))"
proof (induction "N - i" arbitrary: i pos b0 b1 b2 b3 b4 b5 b6 d)
  case 0
  then show ?case by (simp add: pink_loop_stop)
next
  case (Suc n)
  then have i: "i < N" "i < length d" by simp_all
  let ?w = "\<lambda>m. rnd (pos + m) * 2 - 1"
  from Suc(2) have n: "n = N - (i + 1)" by simp
  define d' where "d' = d[i := pink_mix b0 b1 b2 b3 b4 b5 b6 ?w 0]"
  have len: "length d' = N" using Suc.prems by (simp add: d'_def)
  have w0: "?w 0 = rnd pos * 2 - 1" by simp
  have rec: "pink_loop rnd N i pos b0 b1 b2 b3 b4 b5 b6 d =
       pink_loop rnd N (i + 1) (pos + 1)
         (0.99886 * b0 + ?w 0 * 0.0555179) (0.99332 * b1 + ?w 0 * 0.0750759)
         (0.96900 * b2 + ?w 0 * 0.1538520) (0.86650 * b3 + ?w 0 * 0.3104856)
         (0.55000 * b4 + ?w 0 * 0.5329522) (- 0.7616 * b5 - ?w 0 * 0.0168980)
         (?w 0 * 0.115926) d'"
    unfolding d'_def pink_mix_0 w0 by (rule pink_loop_rec [OF i(1)])
  note ih = Suc(1) [OF n len Suc.prems(2), of "pos + 1"
         "0.99886 * b0 + ?w 0 * 0.0555179" "0.99332 * b1 + ?w 0 * 0.0750759"
         "0.96900 * b2 + ?w 0 * 0.1538520" "0.86650 * b3 + ?w 0 * 0.3104856"
         "0.55000 * b4 + ?w 0 * 0.5329522" "- 0.7616 * b5 - ?w 0 * 0.0168980"
         "?w 0 * 0.115926"]
  have sh: "(\<lambda>m. rnd (pos + 1 + m) * 2 - 1) = (\<lambda>j. ?w (Suc j))" by simp
  show ?case
  proof (cases "j < i")
    case True
    with ih i show ?thesis unfolding rec by (simp add: d'_def)
  next
    case False
    show ?thesis
    proof (cases "j = i")
      case True
      with ih i show ?thesis unfolding rec by (simp add: d'_def)
    next
      case False
      with \<open>\<not> j < i\<close> obtain m where m: "j - i = Suc m" "j - (i + 1) = m"
        by (cases "j - i") auto
      from False \<open>\<not> j < i\<close> have nl: "\<not> j < i + 1" by simp
      from ih show ?thesis
        unfolding rec sh pink_mix_shift [of b0 ?w b1 b2 b3 b4 b5 m b6] m
        using nl \<open>\<not> j < i\<close> by (simp only: if_False fst_conv)
    qed
  qed
qed

section \<open>The claims\<close>

text \<open>
  C1 (as stated): every gain target written to any gain parameter is at most
  \<open>MAX_SAFE_GAIN\<close>, the per-tone targets of the coordinated-reset sequencer included. The
  sequencer gives the gain of the selected tone the target 0.5: after
  \<open>playCoordinatedReset(4000)\<close> on a new engine the gains of the four tones hold the values
  0 and 0.5 (first tone), 0, 0 and 0.
\<close>

theorem tone_gain_counterexample:
  "map_option tone_values (returned (playCoordinatedReset 4000 None demo_engine))
     = Some [0, 0.5, 0, 0, 0]
   \<and> \<not> 0.5 \<le> MAX_SAFE_GAIN"
  by (simp add: demo_cr returned_def tone_values_def gain_values_at_def cr_graph_sq
      demo_cr_heap demo_engine_fields programmed_def setTargetAtTime_def mkParam_def
      MAX_SAFE_GAIN_def)

text \<open>
  C1 (amended). Whatever calls are made on a new engine (for every volume and waveform),
  every value given to the master gain, by assignment or as the target of a ramp, lies in
  \<open>[0, MAX_SAFE_GAIN]\<close>. The gains of the four tones of coordinated reset are outside that
  cap: the sequencer gives them the targets 0 and 0.5 and no other.
\<close>

theorem master_gain_never_above_max:
  "(run cs (new_engine rnd rate) = Some (Inr e) \<longrightarrow> master_gain_safe e) \<and>
   (playCoordinatedReset cf t e1 = Some (Inr e2) \<longrightarrow> set (tone_values e2) \<subseteq> {0, 0.5}) \<and>
   (sequencer_tick e3 = Some (Inr e4) \<longrightarrow>
      set (tone_values e4) \<subseteq> set (tone_values e3) \<union> {0, 0.5})"
  using safe_run [OF safe_new_engine] tone_values_playCoordinatedReset tone_values_tick
  by blast

theorem master_gain_never_above_max_witness:
  "run [Play (Tone 1000 (Some Square)), SetVolume 0.9] (new_engine demo_rand 44100)
     = Some (Inr (setVolume 0.9 (playTone 1000 (Some Square) (new_engine demo_rand 44100)))) \<and>
   master_gain_safe (setVolume 0.9 (playTone 1000 (Some Square) (new_engine demo_rand 44100))) \<and>
   (\<exists>e2 e4. playCoordinatedReset 4000 None demo_engine = Some (Inr e2) \<and>
      set (tone_values e2) \<subseteq> {0, 0.5} \<and>
      sequencer_tick e2 = Some (Inr e4) \<and>
      set (tone_values e4) \<subseteq> set (tone_values e2) \<union> {0, 0.5})"
proof -
  let ?E = "setVolume 0.9 (playTone 1000 (Some Square) (new_engine demo_rand 44100))"
  have a: "run [Play (Tone 1000 (Some Square)), SetVolume 0.9] (new_engine demo_rand 44100)
     = Some (Inr ?E)" by simp
  have r: "draws_in_range (rand demo_engine)" "never_stuck (rand demo_engine)"
    by (simp_all add: demo_engine_fields demo_rand_in_range demo_rand_never_stuck)
  have "0 \<le> rand demo_engine (rand_pos demo_engine)"
    and "rand demo_engine (rand_pos demo_engine) < 1"
    by (simp_all add: demo_engine_fields demo_rand_def)
  from playCoordinatedReset_running [OF this, of 4000 None] obtain e2 where
    p: "playCoordinatedReset 4000 None demo_engine = Some (Inr e2)" and c: "cr_running e2"
    and rnd: "rand e2 = rand demo_engine" by blast
  from tick_returns [OF c] r rnd obtain e4 where t: "sequencer_tick e2 = Some (Inr e4)"
    by auto
  from master_gain_never_above_max
    [of "[Play (Tone 1000 (Some Square)), SetVolume 0.9]" demo_rand 44100 ?E
        4000 None demo_engine e2 e2 e4] a p t
  show ?thesis by blast
qed

text \<open>
  C2. On a new engine, after \<open>playTone(1000, 'square')\<close> has run to its end,
  \<open>setVolume(0.9)\<close> ramps the master gain toward \<open>clampGain(0.9) = 0.45\<close>: the volume is not
  multiplied by the scalar of the square wave, with which the target would be 0.0675.
\<close>

theorem setVolume_square_tone_target:
  "map_option current_target
     (masterGain (setVolume 0.9 (playTone 1000 (Some Square) demo_engine))) = Some 0.45
   \<and> clampGain 0.9 * nullish (GAIN_SCALAR (wave_key Square)) 1 = 0.0675"
  by (simp add: setVolume_nf playTone_masterGain playTone_ctx playTone_playing
      gain_volume_def gain_fade_in_def nullish_def GAIN_SCALAR_def current_target_def
      programmed_def setTargetAtTime_def exponentialRampToValueAtTime_def setValueAtTime_def
      clampGain_def MAX_SAFE_GAIN_def)

text \<open>
  C3 (as stated): in every mode every oscillator and filter frequency of the graph lies in
  \<open>[20, 20000]\<close>, the modulator of the amplitude-modulation mode included. With the default
  \<open>modRate\<close> the graph of \<open>playAM(440)\<close> has the frequencies 440 and 10, and 10 is out of
  range.
\<close>

theorem lfo_frequency_counterexample:
  "play (AmplitudeModulation 440 None None) demo_engine
     = Some (Inr (playAM 440 None None demo_engine)) \<and>
   graph_freqs (playAM 440 None None demo_engine) = [440, 10] \<and>
   \<not> freq_in_range 10"
  by (simp add: graph_freqs_playAM clampFreq_def MIN_FREQ_def MAX_FREQ_def nullish_def
      freq_in_range_def)

text \<open>
  C3 (amended). For every frequency input and every playback mode but amplitude
  modulation, every frequency programmed into an oscillator or a filter of the graph lies
  in \<open>[20, 20000]\<close>. In the amplitude-modulation mode the carrier is programmed to
  \<open>clampFreq(freq)\<close>, which lies in that range, and the low-frequency modulator to \<open>modRate\<close>
  (10 when left out) as it is given, without a clamp.
\<close>

theorem graph_frequencies_in_range:
  assumes "play m e = Some (Inr e')"
  shows "case m of
           AmplitudeModulation f r d \<Rightarrow>
             graph_freqs e' = [clampFreq f, nullish r 10] \<and> freq_in_range (clampFreq f)
         | _ \<Rightarrow> list_all freq_in_range (graph_freqs e')"
proof (cases m)
  case (CoordinatedReset f t)
  with assms graph_freqs_playCoordinatedReset [of f t e e'] show ?thesis
    by (simp add: ratios_def freq_in_range_clampFreq)
next
  case (Noise c cf q)
  with assms show ?thesis
    by (auto simp: graph_freqs_playNoise freq_in_range_clampFreq split: option.splits)
qed (use assms in \<open>auto simp: graph_freqs_playTone graph_freqs_playNotchedNoise
      graph_freqs_playAM graph_freqs_playBinaural graph_freqs_playResidualInhibition
      graph_freqs_playPhaseCancellation freq_in_range_clampFreq\<close>)

theorem graph_frequencies_in_range_witness:
  "play (Binaural 400 (Some 10)) demo_engine
     = Some (Inr (playBinaural 400 (Some 10) demo_engine)) \<and>
   list_all freq_in_range (graph_freqs (playBinaural 400 (Some 10) demo_engine)) \<and>
   graph_freqs (playBinaural 400 (Some 10) demo_engine) = [400, 410]"
  using graph_frequencies_in_range
    [of "Binaural 400 (Some 10)" demo_engine "playBinaural 400 (Some 10) demo_engine"]
  by (simp add: graph_freqs_playBinaural clampFreq_def MIN_FREQ_def MAX_FREQ_def nullish_def)

text \<open>
  C4. When a session is active (the playing flag is set or there are live sources), the
  promise of \<open>stop()\<close> is resolved by a timer of \<open>FADE_OUT_SEC * 1000 + 60\<close> ms: with timers
  that fire after exactly their delay it resolves no earlier than \<open>FADE_OUT_SEC\<close> and no
  later than \<open>FADE_OUT_SEC\<close> + 100 ms after the call, and the teardown is left to the timer.
  When no session is active, \<open>stop()\<close> tears down within the call and returns a promise
  that is resolved already.
\<close>

theorem stop_resolution_time:
  "(playing e \<or> sources e \<noteq> [] \<longrightarrow>
      snd (stop e) = ResolvesAfter (FADE_OUT_SEC * 1000 + 60) \<and>
      t + FADE_OUT_SEC \<le> resolves_at t (snd (stop e)) \<and>
      resolves_at t (snd (stop e)) \<le> t + FADE_OUT_SEC + 100 / 1000 \<and>
      playing (fst (stop e)) = playing e \<and> sources (fst (stop e)) = sources e)
   \<and> (\<not> playing e \<and> sources e = [] \<longrightarrow>
        stop e = (cleanup e, Resolved) \<and> resolves_at t (snd (stop e)) = t)"
  by (auto simp: stop_cases FADE_OUT_SEC_def)

theorem stop_resolution_time_witness:
  "playing (playTone 1000 (Some Square) demo_engine) \<and>
   snd (stop (playTone 1000 (Some Square) demo_engine)) = ResolvesAfter 180 \<and>
   resolves_at 0 (snd (stop (playTone 1000 (Some Square) demo_engine))) = 0.18 \<and>
   \<not> playing demo_engine \<and> sources demo_engine = [] \<and>
   stop demo_engine = (cleanup demo_engine, Resolved) \<and>
   resolves_at 0 (snd (stop demo_engine)) = 0"
proof -
  have p: "playing (playTone 1000 (Some Square) demo_engine)"
    by (rule playTone_playing)
  have a: "snd (stop (playTone 1000 (Some Square) demo_engine)) = ResolvesAfter 180"
    using stop_resolution_time [of "playTone 1000 (Some Square) demo_engine" 0] p
    by (simp add: FADE_OUT_SEC_def)
  have b: "stop demo_engine = (cleanup demo_engine, Resolved) \<and>
           resolves_at 0 (snd (stop demo_engine)) = 0"
    using stop_resolution_time [of demo_engine 0] demo_engine_fields by simp
  from p a b demo_engine_fields show ?thesis by simp
qed

text \<open>
  C5. With draws of \<open>Math.random\<close> in \<open>[0, 1)\<close> whose indices are not the same one for ever,
  \<open>playCoordinatedReset\<close> returns and so does every tick of its interval timer: the
  rejection loop of each tick ends. The closure starts from the index \<open>- 1\<close>, the first
  tick runs within \<open>playCoordinatedReset\<close>, and over that tick and any number \<open>n\<close> of ticks
  that follow (100, say) the index selected at a tick is one of 0, 1, 2, 3 and never the
  index selected at the tick before.
\<close>

theorem sequencer_never_repeats:
  assumes "draws_in_range (rand e)" and "never_stuck (rand e)"
  shows "sq_cur (fst (cr_graph cf tempo e)) = - 1 \<and>
    (\<exists>e1 ks e2. playCoordinatedReset cf tempo e = Some (Inr e1) \<and>
       interval_ticks n e1 = Some (Inr (ks, e2)) \<and> length ks = n \<and>
       (\<forall>i\<le>n. (- 1 # selected e1 # ks) ! Suc i \<noteq> (- 1 # selected e1 # ks) ! i) \<and>
       list_all (\<lambda>k. 0 \<le> k \<and> k < 4) (selected e1 # ks))"
proof -
  from assms(1) have "0 \<le> rand e (rand_pos e)" "rand e (rand_pos e) < 1"
    unfolding draws_in_range_def by simp_all
  from playCoordinatedReset_running [OF this, of cf tempo] obtain e1 where
    p: "playCoordinatedReset cf tempo e = Some (Inr e1)" and r: "cr_running e1"
    and b: "0 \<le> selected e1" "selected e1 < 4" and rnd: "rand e1 = rand e" by blast
  from interval_ticks_run [OF r, of n] assms rnd obtain ks e2 where
    i: "interval_ticks n e1 = Some (Inr (ks, e2))" and l: "length ks = n"
    and nr: "\<forall>i<n. (selected e1 # ks) ! Suc i \<noteq> (selected e1 # ks) ! i"
    and rg: "list_all (\<lambda>k. 0 \<le> k \<and> k < 4) ks" by auto
  have "(- 1 # selected e1 # ks) ! Suc i \<noteq> (- 1 # selected e1 # ks) ! i" if "i \<le> n" for i
    using that b nr by (cases i) auto
  with p i l rg b show ?thesis
    by (auto simp: cr_graph_sq)
qed

theorem sequencer_never_repeats_witness:
  "draws_in_range (rand demo_engine) \<and> never_stuck (rand demo_engine) \<and>
   (\<exists>e1 ks e2. playCoordinatedReset 4000 (Some 250) demo_engine = Some (Inr e1) \<and>
       selected e1 = 0 \<and>
       interval_ticks 100 e1 = Some (Inr (ks, e2)) \<and> length ks = 100 \<and>
       (\<forall>i\<le>100. (- 1 # selected e1 # ks) ! Suc i \<noteq> (- 1 # selected e1 # ks) ! i))"
proof -
  have r: "draws_in_range (rand demo_engine)" "never_stuck (rand demo_engine)"
    by (simp_all add: demo_engine_fields demo_rand_in_range demo_rand_never_stuck)
  have f: "\<lfloor>demo_rand 0 * 4\<rfloor> = (0::int)"
    by (simp add: demo_rand_floor)
  have "0 \<le> rand demo_engine (rand_pos demo_engine)"
    and "rand demo_engine (rand_pos demo_engine) < 1"
    by (simp_all add: demo_engine_fields demo_rand_def)
  from playCoordinatedReset_eq [OF this, of 4000 "Some 250"]
  have s: "playCoordinatedReset 4000 (Some 250) demo_engine = Some (Inr e1) \<Longrightarrow> selected e1 = 0"
    for e1
    by (auto simp: selected_def f demo_engine_fields)
  from sequencer_never_repeats [OF r, of 4000 "Some 250" 100] s r show ?thesis
    by blast
qed

text \<open>
  C6. With a first draw of \<open>Math.random\<close> in \<open>[0, 1)\<close>, \<open>playCoordinatedReset(centerFreq,
  tempoMs)\<close> returns with exactly four sources, all started sine oscillators, whose
  frequencies are \<open>clampFreq(centerFreq * r)\<close> for \<open>r\<close> in 0.773, 0.867, 1.133, 1.227, in
  this order; each is connected to a gain node of its own whose \<open>gain.value\<close> is 0, and
  that gain node to the master gain. For \<open>centerFreq\<close> = 4000 the frequencies are 3092,
  3468, 4532 and 4908.
\<close>

theorem coordinated_reset_graph:
  assumes "0 \<le> rand e (rand_pos e)" and "rand e (rand_pos e) < 1"
  shows "\<exists>e'. playCoordinatedReset cf tempo e = Some (Inr e') \<and>
     sources e' = [next_id e, next_id e + 2, next_id e + 4, next_id e + 6] \<and>
     nodes e' = [next_id e + 1, next_id e + 3, next_id e + 5, next_id e + 7] \<and>
     map (heap e') (sources e') =
       map (\<lambda>r. Some (OscillatorNode Sine (mkParam (clampFreq (cf * r))) Started)) ratios \<and>
     list_all (\<lambda>a. \<exists>g. heap e' a = Some (GainNode g) \<and> pvalue g = 0) (nodes e') \<and>
     list_all (\<lambda>(a, b). (Node a, Input (Node b) 0) \<in> set (edges e') \<and>
                        (Node b, Input MasterGainRef 0) \<in> set (edges e'))
       (zip (sources e') (nodes e')) \<and>
     map (\<lambda>r. clampFreq (4000 * r)) ratios = [3092, 3468, 4532, 4908]"
proof -
  define k where "k = \<lfloor>rand e (rand_pos e) * 4\<rfloor>"
  from floor_draw_range [OF assms] have "0 \<le> k" "k < 4" by (simp_all add: k_def)
  then have "nat k < 4" by simp
  then have j: "nat k = 0 \<or> nat k = 1 \<or> nat k = 2 \<or> nat k = 3" by arith
  have n: "next_id e + 2 = Suc (Suc (next_id e))"
    "next_id e + 4 = Suc (Suc (Suc (Suc (next_id e))))"
    "next_id e + 6 = Suc (Suc (Suc (Suc (Suc (Suc (next_id e))))))"
    "next_id e + 1 = Suc (next_id e)"
    "next_id e + 3 = Suc (Suc (Suc (next_id e)))"
    "next_id e + 5 = Suc (Suc (Suc (Suc (Suc (next_id e)))))"
    "next_id e + 7 = Suc (Suc (Suc (Suc (Suc (Suc (Suc (next_id e)))))))"
    by simp_all
  have f: "clampFreq 3092 = 3092" "clampFreq 3468 = 3468" "clampFreq 4532 = 4532"
    "clampFreq 4908 = 4908"
    by (simp_all add: clampFreq_def MIN_FREQ_def MAX_FREQ_def)
  from j show ?thesis
    unfolding playCoordinatedReset_eq [OF assms] k_def [symmetric] n
    by (elim disjE)
       (simp_all add: f cr_graph_misc cr_graph_sq cr_graph_heap cr_graph_edges ratios_def
          mkParam_def setTargetAtTime_def)
qed

theorem coordinated_reset_graph_witness:
  "0 \<le> rand demo_engine (rand_pos demo_engine) \<and> rand demo_engine (rand_pos demo_engine) < 1 \<and>
   (\<exists>e'. playCoordinatedReset 4000 (Some 250) demo_engine = Some (Inr e') \<and>
     sources e' = [0, 2, 4, 6] \<and>
     nodes e' = [1, 3, 5, 7] \<and>
     map (heap e') (sources e') =
       map (\<lambda>r. Some (OscillatorNode Sine (mkParam (clampFreq (4000 * r))) Started)) ratios \<and>
     list_all (\<lambda>a. \<exists>g. heap e' a = Some (GainNode g) \<and> pvalue g = 0) (nodes e') \<and>
     list_all (\<lambda>(a, b). (Node a, Input (Node b) 0) \<in> set (edges e') \<and>
                        (Node b, Input MasterGainRef 0) \<in> set (edges e'))
       (zip (sources e') (nodes e')) \<and>
     map (\<lambda>r. clampFreq (4000 * r)) ratios = [3092, 3468, 4532, 4908])"
proof -
  have r: "0 \<le> rand demo_engine (rand_pos demo_engine)"
    "rand demo_engine (rand_pos demo_engine) < 1"
    by (simp_all add: demo_engine_fields demo_rand_def)
  from r coordinated_reset_graph [OF r, of 4000 "Some 250", unfolded demo_next_id add_0]
  show ?thesis by (intro conjI)
qed

end
